theory Spec2Isabelle
  imports Complex_Main "HOL-Library.Word"
begin

section \<open>The watchdog of main.py: data model\<close>

text \<open>
  The program watches one operating-system process by name, lets it run for a configured
  duration, counts its launches per calendar day in a CSV ledger and kills it when the
  duration is over or the daily launch count is exceeded.

  Times. A \<^verbatim>\<open>datetime.datetime\<close> is the number of microseconds since a fixed epoch
  (naive local time, microsecond resolution), a \<^verbatim>\<open>datetime.date\<close> is the day number,
  a \<^verbatim>\<open>datetime.time\<close> is the number of microseconds since midnight, and a
  \<^verbatim>\<open>pd.Timedelta\<close> is a number of nanoseconds. Python floats (seconds) are
  idealised as rationals. The launch counts are read from the CSV into a column of
  \<^verbatim>\<open>numpy.int64\<close>, whose arithmetic wraps around: they are 64-bit words, read as signed
  integers by \<open>sint\<close>.
\<close>

type_synonym int64 = "64 word"

type_synonym datetime = int
type_synonym date = int
type_synonym time_of_day = int
type_synonym timedelta = int

definition date_of :: "datetime \<Rightarrow> date" where
  "date_of t = t div 86400000000"

definition time_of :: "datetime \<Rightarrow> time_of_day" where
  "time_of t = t mod 86400000000"

text \<open>\<^verbatim>\<open>datetime + pd.Timedelta\<close>: the sum is a datetime, so the nanoseconds below one
  microsecond are dropped.\<close>

definition add_timedelta :: "datetime \<Rightarrow> timedelta \<Rightarrow> datetime" where
  "add_timedelta t d = t + d div 1000"

definition total_seconds :: "timedelta \<Rightarrow> rat" where
  "total_seconds d = of_int d / 1000000000"

datatype state = On | Off

datatype platform = Win32 | Posix

datatype error = AttributeError | TypeError | ValueError | ZeroDivisionError
  | FileNotFoundError | OSError

text \<open>The \<^verbatim>\<open>actual_end_time\<close> column holds the literal \<^verbatim>\<open>"unknown"\<close> or the ISO text
  of a time of day.\<close>

datatype end_cell = Unknown | EndTime time_of_day

text \<open>One row of the report. The \<^verbatim>\<open>date\<close> column holds the ISO text of a day; the text
  determines the day and the day the text, so the column is modelled by the day.\<close>

record row =
  row_date :: date
  row_start_time :: time_of_day
  row_expected_end_time :: time_of_day
  row_actual_end_time :: end_cell
  row_duration :: "timedelta option"
  row_times_opened_today :: int64

record process =
  name :: string
  start_time :: "datetime option"
  end_time :: "datetime option"
  duration :: "timedelta option"

text \<open>What the program prints, writes and asks of the operating system, in order. The
  first line of a run prints the \<^verbatim>\<open>Process\<close> object itself, which has no \<^verbatim>\<open>__str__\<close>: the
  event records the object that was handed to \<^verbatim>\<open>print\<close>.\<close>

datatype event =
    PrintStarting process
  | PrintCurrentState state
  | PrintAlreadyOn
  | PrintWaiting
  | PrintTooMany int int
  | PrintStartTime "datetime option"
  | PrintWillTerminate rat "datetime option"
  | PrintMonitoring rat
  | PrintDurationPassed
  | ToCsv string "row list"
  | OsKill int
  | OpenProcess int
  | TerminateProcess int
  | CloseHandle int

text \<open>
  The world the program runs in. \<open>clock\<close> is the wall clock in seconds; \<open>delays w k\<close>
  is the time that passes, beyond what was asked for, until the \<open>k\<close>-th primitive that
  looks at the clock or at the process table has its answer (\<open>tick\<close> counts them);
  \<open>procs w t\<close> is the process table at time \<open>t\<close>, as (name, pid) pairs in the order of
  \<^verbatim>\<open>psutil.process_iter()\<close>, of the processes whose name can be read; \<open>files\<close> maps a
  path to the rows of the CSV stored there (the directory is taken to be writable);
  \<open>kill_fails pid\<close> says that \<^verbatim>\<open>os.kill(pid, SIGKILL)\<close> raises; \<open>out\<close> is the trace.
\<close>

record world =
  clock :: rat
  delays :: "nat \<Rightarrow> rat"
  tick :: nat
  procs :: "rat \<Rightarrow> (string \<times> int) list"
  files :: "string \<rightharpoonup> row list"
  platform :: platform
  kill_fails :: "int \<Rightarrow> bool"
  out :: "event list"

text \<open>\<^verbatim>\<open>args\<close>, the module-level namespace that \<^verbatim>\<open>get_args\<close> returns;
  \<open>arg_max_times_opened\<close> is \<^verbatim>\<open>int(args.max_times_opened)\<close>.\<close>

record args =
  arg_process :: string
  arg_report_dir :: string
  arg_duration :: timedelta
  arg_max_times_opened :: int

text \<open>A \<^verbatim>\<open>Report\<close>. \<open>times_opened\<close> is the integer that the attribute of that name holds
  (a Python int or a \<^verbatim>\<open>numpy.int64\<close>); line 164 compares it with a Python int.\<close>

record report =
  date :: date
  report_dir :: string
  report_file_name :: string
  report_df :: "row list"
  times_opened :: int

section \<open>Primitives\<close>

definition elapse :: "world \<Rightarrow> world" where
  "elapse w = w\<lparr>clock := clock w + delays w (tick w), tick := Suc (tick w)\<rparr>"

definition datetime_now :: "world \<Rightarrow> datetime \<times> world" where
  "datetime_now w = (let w1 = elapse w in (\<lfloor>clock w1 * 1000000\<rfloor>, w1))"

definition process_iter :: "world \<Rightarrow> (string \<times> int) list \<times> world" where
  "process_iter w = (let w1 = elapse w in (procs w1 (clock w1), w1))"

text \<open>\<^verbatim>\<open>time.sleep\<close> raises ValueError on a negative length; otherwise the clock moves
  on by the length asked for and by the delay of the wake-up.\<close>

definition sleep_for :: "rat \<Rightarrow> world \<Rightarrow> world" where
  "sleep_for secs w = elapse (w\<lparr>clock := clock w + secs\<rparr>)"

definition time_sleep :: "rat \<Rightarrow> world \<Rightarrow> error + world" where
  "time_sleep secs w = (if secs < 0 then Inl ValueError else Inr (sleep_for secs w))"

definition print :: "event \<Rightarrow> world \<Rightarrow> world" where
  "print e w = w\<lparr>out := out w @ [e]\<rparr>"

definition path_exists :: "string \<Rightarrow> world \<Rightarrow> bool" where
  "path_exists p w = (files w p \<noteq> None)"

definition to_csv :: "string \<Rightarrow> row list \<Rightarrow> world \<Rightarrow> world" where
  "to_csv p rows w = w\<lparr>files := (files w)(p \<mapsto> rows), out := out w @ [ToCsv p rows]\<rparr>"

definition read_csv :: "string \<Rightarrow> world \<Rightarrow> error + row list" where
  "read_csv p w = (case files w p of None \<Rightarrow> Inl FileNotFoundError | Some rows \<Rightarrow> Inr rows)"

definition os_sep :: "world \<Rightarrow> string" where
  "os_sep w = (if platform w = Win32 then [CHR 0x5C] else ''/'')"

definition os_kill :: "int \<Rightarrow> world \<Rightarrow> error + world" where
  "os_kill pid w = (if kill_fails w pid then Inl OSError else Inr (print (OsKill pid) w))"

section \<open>Process\<close>

definition Process_init :: "string \<Rightarrow> process" where
  "Process_init n = \<lparr>name = n, start_time = None, end_time = None, duration = None\<rparr>"

text \<open>The loop of \<^verbatim>\<open>get_pid\<close>; both probes compare with \<^verbatim>\<open>args.process\<close>, the module
  global assigned once at line 180, and never read \<^verbatim>\<open>self.name\<close>.\<close>

fun get_pid_loop :: "string \<Rightarrow> (string \<times> int) list \<Rightarrow> int" where
  "get_pid_loop n [] = - 1"
| "get_pid_loop n ((nm, pid) # ps) = (if nm = n then pid else get_pid_loop n ps)"

definition get_pid :: "args \<Rightarrow> process \<Rightarrow> world \<Rightarrow> int \<times> world" where
  "get_pid args self w =
     (let (ps, w1) = process_iter w in (get_pid_loop (arg_process args) ps, w1))"

fun get_state_loop :: "string \<Rightarrow> (string \<times> int) list \<Rightarrow> state" where
  "get_state_loop n [] = Off"
| "get_state_loop n ((nm, pid) # ps) = (if nm = n then On else get_state_loop n ps)"

definition get_state :: "args \<Rightarrow> process \<Rightarrow> world \<Rightarrow> state \<times> world" where
  "get_state args self w =
     (let (ps, w1) = process_iter w in (get_state_loop (arg_process args) ps, w1))"

definition prepare_to_monitor :: "process \<Rightarrow> timedelta \<Rightarrow> world \<Rightarrow> process \<times> world" where
  "prepare_to_monitor self d w =
     (let (t, w1) = datetime_now w
      in (self\<lparr>duration := Some d, start_time := Some t,
                end_time := Some (add_timedelta t d)\<rparr>, w1))"

text \<open>Line 47 of \<^verbatim>\<open>monitor\<close>: \<^verbatim>\<open>interval = self.duration.total_seconds() / 100\<close>.\<close>

definition monitor_interval :: "timedelta \<Rightarrow> rat" where
  "monitor_interval d = total_seconds d / 100"

text \<open>\<^verbatim>\<open>round(x, n)\<close>, to the nearest multiple of \<open>10\<^sup>-\<^sup>n\<close>, a tie going to the even one.
  This is the rounding of the exact quotient. Python rounds the float next to it, which
  lies beside a tie that has no exact float (\<^verbatim>\<open>round(2.675, 2)\<close> is 2.67), so the last
  digit of a figure at such a tie can differ. The figure is printed and used nowhere
  else.\<close>

definition py_round :: "rat \<Rightarrow> nat \<Rightarrow> rat" where
  "py_round x n =
     (let s = x * 10 ^ n; f = \<lfloor>s\<rfloor>; r = s - of_int f
      in of_int (if r < 1 / 2 then f else if 1 / 2 < r then f + 1
                 else if even f then f else f + 1) / 10 ^ n)"

text \<open>The module-level \<^verbatim>\<open>get_duration_percentage\<close>. Subtracting from or with \<^verbatim>\<open>None\<close>
  is a TypeError, dividing by a zero total a ZeroDivisionError.\<close>

definition get_duration_percentage ::
  "datetime option \<Rightarrow> datetime option \<Rightarrow> datetime \<Rightarrow> error + rat" where
  "get_duration_percentage st en current_time =
     (case en of None \<Rightarrow> Inl TypeError | Some e \<Rightarrow>
     (case st of None \<Rightarrow> Inl TypeError | Some s \<Rightarrow>
        (let total_duration = (of_int (e - s) :: rat) / 1000000;
             current_duration = (of_int (current_time - s) :: rat) / 1000000
         in if total_duration = 0 then Inl ZeroDivisionError
            else Inr (py_round (100 * (current_duration / total_duration)) 2))))"

text \<open>The loop of \<^verbatim>\<open>wait_until_started\<close>. It has no bound: \<open>None\<close> is a wait that never
  ends.\<close>

partial_function (option) wait_loop ::
  "args \<Rightarrow> process \<Rightarrow> state \<Rightarrow> world \<Rightarrow> (error + world) option" where
  "wait_loop args self st w =
     (if st = Off then
        (case time_sleep (1 / 10) w of
           Inl err \<Rightarrow> Some (Inl err)
         | Inr w1 \<Rightarrow> (case get_state args self w1 of (st', w2) \<Rightarrow> wait_loop args self st' w2))
      else Some (Inr w))"

definition wait_until_started :: "args \<Rightarrow> process \<Rightarrow> world \<Rightarrow> (error + world) option" where
  "wait_until_started args self w =
     (let (st, w1) = get_state args self w in wait_loop args self st w1)"

text \<open>The test of the loop of \<^verbatim>\<open>monitor\<close>,
  \<^verbatim>\<open>state == Process.State.On and current_time < self.end_time\<close>: the comparison is
  evaluated only when the state is On, and is a TypeError when \<^verbatim>\<open>end_time\<close> is None.\<close>

definition monitor_cond :: "process \<Rightarrow> state \<Rightarrow> datetime \<Rightarrow> error + bool" where
  "monitor_cond self st current_time =
     (if st = On
      then (case end_time self of None \<Rightarrow> Inl TypeError | Some e \<Rightarrow> Inr (current_time < e))
      else Inr False)"

text \<open>The body of the loop: the percentage, the progress line, the sleep, the next clock
  reading and the next state.\<close>

definition monitor_body ::
  "args \<Rightarrow> process \<Rightarrow> rat \<Rightarrow> datetime \<Rightarrow> world \<Rightarrow> error + (state \<times> datetime \<times> world)" where
  "monitor_body args self interval current_time w =
     (case get_duration_percentage (start_time self) (end_time self) current_time of
        Inl err \<Rightarrow> Inl err
      | Inr percentage \<Rightarrow>
          (case time_sleep interval (print (PrintMonitoring percentage) w) of
             Inl err \<Rightarrow> Inl err
           | Inr w1 \<Rightarrow>
               (let (current_time', w2) = datetime_now w1;
                    (st', w3) = get_state args self w2
                in Inr (st', current_time', w3))))"

text \<open>The loop of \<^verbatim>\<open>monitor\<close>, entered with the state and the clock reading taken before
  it.\<close>

partial_function (option) monitor_loop ::
  "args \<Rightarrow> process \<Rightarrow> rat \<Rightarrow> state \<Rightarrow> datetime \<Rightarrow> world \<Rightarrow> (error + world) option" where
  "monitor_loop args self interval st current_time w =
     (case monitor_cond self st current_time of
        Inl err \<Rightarrow> Some (Inl err)
      | Inr continue \<Rightarrow>
          if continue then
            (case monitor_body args self interval current_time w of
               Inl err \<Rightarrow> Some (Inl err)
             | Inr (st', current_time', w') \<Rightarrow>
                 monitor_loop args self interval st' current_time' w')
          else Some (Inr w))"

definition monitor :: "args \<Rightarrow> process \<Rightarrow> world \<Rightarrow> (error + world) option" where
  "monitor args self w =
     (case duration self of
        None \<Rightarrow> Some (Inl AttributeError)
      | Some d \<Rightarrow>
          (let interval = monitor_interval d;
               (st, w1) = get_state args self w;
               (current_time, w2) = datetime_now w1
           in monitor_loop args self interval st current_time w2))"

text \<open>\<^verbatim>\<open>terminate\<close> passes whatever \<^verbatim>\<open>get_pid\<close> returns to the operating system. The
  three Windows calls return failure codes and do not raise; \<^verbatim>\<open>os.kill\<close> may raise.\<close>

definition terminate :: "args \<Rightarrow> process \<Rightarrow> world \<Rightarrow> error + world" where
  "terminate args self w =
     (if platform w = Win32 then
        (let (pid, w1) = get_pid args self w
         in Inr (print (CloseHandle pid) (print (TerminateProcess pid)
              (print (OpenProcess pid) w1))))
      else (let (pid, w1) = get_pid args self w in os_kill pid w1))"

section \<open>Report\<close>

definition get_last_index :: "row list \<Rightarrow> int" where
  "get_last_index df = int (length df) - 1"

definition create_new_report_csv :: "string \<Rightarrow> world \<Rightarrow> world" where
  "create_new_report_csv fname w = to_csv fname [] w"

definition get_report_df :: "string \<Rightarrow> world \<Rightarrow> error + (row list \<times> world)" where
  "get_report_df fname w =
     (let w1 = (if \<not> path_exists fname w then create_new_report_csv fname w else w)
      in case read_csv fname w1 of Inl e \<Rightarrow> Inl e | Inr df \<Rightarrow> Inr (df, w1))"

definition get_report_file_name :: "string \<Rightarrow> process \<Rightarrow> world \<Rightarrow> string" where
  "get_report_file_name dir p w = dir @ os_sep w @ name p @ ''_report.csv''"

text \<open>\<^verbatim>\<open>_get_times_opened_today\<close>: 1 for a day without rows, else the count of the last row
  of the day plus 1, an addition of \<^verbatim>\<open>numpy.int64\<close> that wraps around.\<close>

definition get_times_opened_today :: "report \<Rightarrow> int64" where
  "get_times_opened_today self =
     (let today_df = filter (\<lambda>r. row_date r = date self) (report_df self)
      in if today_df = [] then 1
         else (let last = get_last_index today_df
               in row_times_opened_today (today_df ! nat last) + 1))"

text \<open>\<^verbatim>\<open>Report(process, report_dir)\<close>. The report keeps a reference to the process
  object; the model passes the process to the methods that read it.\<close>

definition Report_init :: "process \<Rightarrow> string \<Rightarrow> world \<Rightarrow> error + (report \<times> world)" where
  "Report_init p dir w =
     (let (t, w1) = datetime_now w;
          fname = get_report_file_name dir p w1
      in case get_report_df fname w1 of
           Inl e \<Rightarrow> Inl e
         | Inr (df, w2) \<Rightarrow>
             (let self = \<lparr>date = date_of t, report_dir = dir, report_file_name = fname,
                          report_df = df, times_opened = 0\<rparr>
              in Inr (self\<lparr>times_opened := sint (get_times_opened_today self)\<rparr>, w2)))"

text \<open>\<^verbatim>\<open>df.loc[i] = row\<close> overwrites the row labelled \<open>i\<close> or, when there is none,
  appends; \<^verbatim>\<open>df.update\<close> with a one-cell series changes that cell where the label
  exists and nothing otherwise. The labels are \<open>0, \<dots>, len - 1\<close>.\<close>

definition df_loc_set :: "row list \<Rightarrow> int \<Rightarrow> row \<Rightarrow> row list" where
  "df_loc_set df i r = (if 0 \<le> i \<and> i < int (length df) then df[nat i := r] else df @ [r])"

definition df_update :: "row list \<Rightarrow> int \<Rightarrow> end_cell \<Rightarrow> row list" where
  "df_update df i v =
     (if 0 \<le> i \<and> i < int (length df)
      then df[nat i := (df ! nat i)\<lparr>row_actual_end_time := v\<rparr>] else df)"

definition report_start :: "report \<Rightarrow> process \<Rightarrow> world \<Rightarrow> error + (report \<times> world)" where
  "report_start self p w =
     (let times_opened = get_times_opened_today self;
          new_row_index = get_last_index (report_df self) + 1
      in case start_time p of None \<Rightarrow> Inl AttributeError | Some st \<Rightarrow>
        (case end_time p of None \<Rightarrow> Inl AttributeError | Some en \<Rightarrow>
           (let new_row = \<lparr>row_date = date self, row_start_time = time_of st,
                           row_expected_end_time = time_of en, row_actual_end_time = Unknown,
                           row_duration = duration p, row_times_opened_today = times_opened\<rparr>;
                df = df_loc_set (report_df self) new_row_index new_row
            in Inr (self\<lparr>report_df := df\<rparr>, to_csv (report_file_name self) df w))))"

definition report_termination :: "report \<Rightarrow> world \<Rightarrow> report \<times> world" where
  "report_termination self w =
     (let row_index = get_last_index (report_df self);
          (t, w1) = datetime_now w;
          df = df_update (report_df self) row_index (EndTime (time_of t))
      in (self\<lparr>report_df := df\<rparr>, to_csv (report_file_name self) df w1))"

section \<open>main\<close>

text \<open>Lines 161 to 176 of \<^verbatim>\<open>main\<close>, from \<^verbatim>\<open>prepare_to_monitor\<close> on.\<close>

definition main_session :: "args \<Rightarrow> process \<Rightarrow> report \<Rightarrow> world \<Rightarrow> (error + world) option" where
  "main_session args p0 rep0 w =
     (let (p, w1) = prepare_to_monitor p0 (arg_duration args) w
      in case report_start rep0 p w1 of
           Inl e \<Rightarrow> Some (Inl e)
         | Inr (rep, w2) \<Rightarrow>
             if times_opened rep > arg_max_times_opened args then
               (let w3 = print (PrintTooMany (times_opened rep) (arg_max_times_opened args)) w2;
                    (rep', w4) = report_termination rep w3
                in Some (terminate args p w4))
             else
               (case duration p of
                  None \<Rightarrow> Some (Inl AttributeError)
                | Some d \<Rightarrow>
                    (let w3 = print (PrintStartTime (start_time p)) w2;
                         w4 = print (PrintWillTerminate (total_seconds d / 60) (end_time p)) w3
                     in (case monitor args p w4 of
                           None \<Rightarrow> None
                         | Some (Inl e) \<Rightarrow> Some (Inl e)
                         | Some (Inr w5) \<Rightarrow>
                             (let w6 = print PrintDurationPassed w5;
                                  (rep', w7) = report_termination rep w6
                              in Some (terminate args p w7))))))"

text \<open>Lines 148 to 159 of \<^verbatim>\<open>main\<close>, up to the end of the wait for the process. \<open>None\<close>
  is a wait that never ends.\<close>

definition main_startup ::
  "args \<Rightarrow> world \<Rightarrow> (error + (process \<times> report \<times> world)) option" where
  "main_startup args w =
     (let p = Process_init (arg_process args)
      in case Report_init p (arg_report_dir args) w of
           Inl e \<Rightarrow> Some (Inl e)
         | Inr (rep, w1) \<Rightarrow>
             (let w2 = print (PrintStarting p) w1;
                  (st, w3) = get_state args p w2;
                  w4 = print (PrintCurrentState st) w3
              in (case (if st = On then Some (Inr (print PrintAlreadyOn w4))
                        else wait_until_started args p (print PrintWaiting w4)) of
                    None \<Rightarrow> None
                  | Some (Inl e) \<Rightarrow> Some (Inl e)
                  | Some (Inr w5) \<Rightarrow> Some (Inr (p, rep, w5)))))"

text \<open>Lines 161 to 175 once more, without the call of \<^verbatim>\<open>terminate\<close> that ends the run:
  the process and the world with which \<^verbatim>\<open>terminate\<close> is called or, when an exception ends
  the run before, the exception and the files as they are then. \<^verbatim>\<open>report_start\<close> raises
  before it writes and \<^verbatim>\<open>monitor\<close> writes no file, so these are the files at the call that
  raises.\<close>

definition main_until_terminate ::
  "args \<Rightarrow> process \<Rightarrow> report \<Rightarrow> world \<Rightarrow>
     ((error \<times> (string \<rightharpoonup> row list)) + (process \<times> world)) option" where
  "main_until_terminate args p0 rep0 w =
     (let (p, w1) = prepare_to_monitor p0 (arg_duration args) w
      in case report_start rep0 p w1 of
           Inl e \<Rightarrow> Some (Inl (e, files w1))
         | Inr (rep, w2) \<Rightarrow>
             if times_opened rep > arg_max_times_opened args then
               (let w3 = print (PrintTooMany (times_opened rep) (arg_max_times_opened args)) w2;
                    (rep', w4) = report_termination rep w3
                in Some (Inr (p, w4)))
             else
               (case duration p of
                  None \<Rightarrow> Some (Inl (AttributeError, files w2))
                | Some d \<Rightarrow>
                    (let w3 = print (PrintStartTime (start_time p)) w2;
                         w4 = print (PrintWillTerminate (total_seconds d / 60) (end_time p)) w3
                     in (case monitor args p w4 of
                           None \<Rightarrow> None
                         | Some (Inl e) \<Rightarrow> Some (Inl (e, files w4))
                         | Some (Inr w5) \<Rightarrow>
                             (let w6 = print PrintDurationPassed w5;
                                  (rep', w7) = report_termination rep w6
                              in Some (Inr (p, w7)))))))"

text \<open>\<^verbatim>\<open>main(args)\<close>. \<open>None\<close> is a run that never returns.\<close>

definition main :: "args \<Rightarrow> world \<Rightarrow> (error + world) option" where
  "main args w =
     (case main_startup args w of
        None \<Rightarrow> None
      | Some (Inl e) \<Rightarrow> Some (Inl e)
      | Some (Inr (p, rep, w5)) \<Rightarrow> main_session args p rep w5)"

section \<open>Vocabulary of the properties\<close>

text \<open>A clock that never runs backwards, and one whose primitives answer within \<open>b\<close>
  seconds.\<close>

definition monotone_clock :: "world \<Rightarrow> bool" where
  "monotone_clock w \<longleftrightarrow> (\<forall>k. 0 \<le> delays w k)"

definition bounded_delays :: "rat \<Rightarrow> world \<Rightarrow> bool" where
  "bounded_delays b w \<longleftrightarrow> (\<forall>k. 0 \<le> delays w k \<and> delays w k \<le> b)"

text \<open>The start of the window was read from the clock before the reading \<open>cur\<close> and
  before the present time of the world.\<close>

definition safe_start :: "datetime \<Rightarrow> process \<Rightarrow> datetime \<Rightarrow> world \<Rightarrow> bool" where
  "safe_start s self cur w \<longleftrightarrow>
     monotone_clock w \<and> start_time self = Some s \<and> s \<le> cur \<and>
     of_int s \<le> clock w * 1000000"

text \<open>Two worlds with the same surroundings: delays, process table, platform and the
  answers of \<^verbatim>\<open>os.kill\<close>.\<close>

definition same_env :: "world \<Rightarrow> world \<Rightarrow> bool" where
  "same_env w w' \<longleftrightarrow>
     delays w' = delays w \<and> procs w' = procs w \<and> platform w' = platform w \<and>
     kill_fails w' = kill_fails w"

text \<open>The requests to kill a process, and the progress lines, in a trace.\<close>

fun is_kill :: "event \<Rightarrow> bool" where
  "is_kill (OsKill pid) = True"
| "is_kill (TerminateProcess pid) = True"
| "is_kill e = False"

fun is_progress :: "event \<Rightarrow> bool" where
  "is_progress (PrintMonitoring x) = True"
| "is_progress e = False"

text \<open>The rows a path holds (none when there is no file), the day on which a run
  starts, the path of the report of a run, and the launch counts recorded for a day.\<close>

definition stored_rows :: "string \<Rightarrow> (string \<rightharpoonup> row list) \<Rightarrow> row list" where
  "stored_rows f fs = (case fs f of None \<Rightarrow> [] | Some rows \<Rightarrow> rows)"

definition startup_day :: "world \<Rightarrow> date" where
  "startup_day w = date_of (fst (datetime_now w))"

definition report_path :: "args \<Rightarrow> world \<Rightarrow> string" where
  "report_path args w =
     get_report_file_name (arg_report_dir args) (Process_init (arg_process args)) w"

definition day_counts :: "date \<Rightarrow> row list \<Rightarrow> int64 list" where
  "day_counts d rows = map row_times_opened_today (filter (\<lambda>r. row_date r = d) rows)"

text \<open>The files a run of \<^verbatim>\<open>main\<close> leaves when it ends after the wait for the process,
  by returning or by an exception of \<^verbatim>\<open>monitor\<close> or of \<^verbatim>\<open>terminate\<close> (which writes no
  file); \<open>None\<close> for a run that never ends. A sequence of such runs: each has its own
  clock and process table and finds the files the run before it left.\<close>

definition store_after_run :: "args \<Rightarrow> world \<Rightarrow> (string \<rightharpoonup> row list) option" where
  "store_after_run args w =
     (case main_startup args w of
        Some (Inr (p, rep, w5)) \<Rightarrow>
          (case main_until_terminate args p rep w5 of
             Some (Inr (p', w7)) \<Rightarrow> Some (files w7)
           | Some (Inl (e, fs)) \<Rightarrow> Some fs
           | None \<Rightarrow> None)
      | _ \<Rightarrow> None)"

fun runs :: "args \<Rightarrow> world list \<Rightarrow> (string \<rightharpoonup> row list) \<Rightarrow> (string \<rightharpoonup> row list) option" where
  "runs args [] fs = Some fs"
| "runs args (w # ws) fs =
     (case store_after_run args (w\<lparr>files := fs\<rparr>) of
        Some fs1 \<Rightarrow> runs args ws fs1
      | None \<Rightarrow> None)"

text \<open>The time a session spends in Monitoring: from the call of \<^verbatim>\<open>monitor\<close> at line 170
  to its return; \<open>None\<close> for a session that does not get there or does not come back.\<close>

definition monitoring_time :: "args \<Rightarrow> process \<Rightarrow> report \<Rightarrow> world \<Rightarrow> rat option" where
  "monitoring_time args p0 rep0 w =
     (let (p, w1) = prepare_to_monitor p0 (arg_duration args) w
      in case report_start rep0 p w1 of
           Inl e \<Rightarrow> None
         | Inr (rep, w2) \<Rightarrow>
             (let w4 = print (PrintWillTerminate (total_seconds (arg_duration args) / 60) (end_time p))
                         (print (PrintStartTime (start_time p)) w2)
              in case monitor args p w4 of
                   Some (Inr w5) \<Rightarrow> Some (clock w5 - clock w4)
                 | _ \<Rightarrow> None))"

text \<open>A run to try the properties on: two seconds allowed, three launches a day, a
  process that is running, and a host that takes half a second to answer; the same on
  a host that answers at once; a report with an empty table.\<close>

definition ex_args :: args where
  "ex_args = \<lparr>arg_process = ''app'', arg_report_dir = ''reports'',
              arg_duration = 2000000000, arg_max_times_opened = 3\<rparr>"

definition ex_world :: world where
  "ex_world = \<lparr>clock = 1000, delays = (\<lambda>k. 1 / 2), tick = 0,
               procs = (\<lambda>t. [(''init'', 1), (''app'', 42)]), files = Map.empty,
               platform = Posix, kill_fails = (\<lambda>pid. False), out = []\<rparr>"

definition ex_ideal_world :: world where
  "ex_ideal_world = ex_world\<lparr>delays := (\<lambda>k. 0)\<rparr>"

definition ex_report :: report where
  "ex_report = \<lparr>date = 0, report_dir = ''reports'',
                report_file_name = ''reports/app_report.csv'', report_df = [],
                times_opened = 1\<rparr>"

text \<open>The same run on the second launch of the day, with one launch allowed.\<close>

definition ex_ledger :: "row list" where
  "ex_ledger = [\<lparr>row_date = 0, row_start_time = 500000000, row_expected_end_time = 502000000,
                  row_actual_end_time = EndTime 502100000, row_duration = Some 2000000000,
                  row_times_opened_today = 1\<rparr>]"

definition ex_over_world :: world where
  "ex_over_world = ex_world\<lparr>files := [''reports/app_report.csv'' \<mapsto> ex_ledger]\<rparr>"

definition ex_over_args :: args where
  "ex_over_args = ex_args\<lparr>arg_max_times_opened := 1\<rparr>"

text \<open>The rows a run leaves under a path; none when it does not return normally.\<close>

definition final_rows :: "string \<Rightarrow> (error + world) option \<Rightarrow> row list" where
  "final_rows f r = (case r of Some (Inr w') \<Rightarrow> stored_rows f (files w') | _ \<Rightarrow> [])"

text \<open>The first run again, with a process that exits on its own three seconds after the
  clock shows 1000, and the same on a host whose \<^verbatim>\<open>os.kill\<close> refuses a negative pid. The
  trace a run leaves is empty when it does not return normally.\<close>

definition ex_exit_world :: world where
  "ex_exit_world = ex_world\<lparr>procs := (\<lambda>t. if t < 1003 then [(''app'', 42)] else [])\<rparr>"

definition ex_strict_world :: world where
  "ex_strict_world = ex_exit_world\<lparr>kill_fails := (\<lambda>pid. pid < 0)\<rparr>"

definition final_trace :: "(error + world) option \<Rightarrow> event list" where
  "final_trace r = (case r of Some (Inr w') \<Rightarrow> out w' | _ \<Rightarrow> [])"

text \<open>A watchdog started one second before midnight, on a host that takes a quarter of a
  second to answer, for a process that starts at midnight.\<close>

definition ex_midnight :: world where
  "ex_midnight = ex_world\<lparr>clock := 86399, delays := (\<lambda>k. 1 / 4),
                   procs := (\<lambda>t. if t < 86400 then [] else [(''app'', 42)])\<rparr>"

text \<open>A store with one record of the day before, whose count is 7, and the record the
  first run leaves as launch \<open>n\<close> of its day.\<close>

definition ex_yesterday :: "string \<rightharpoonup> row list" where
  "ex_yesterday = [''reports/app_report.csv'' \<mapsto>
     [\<lparr>row_date = - 1, row_start_time = 500000000, row_expected_end_time = 502000000,
       row_actual_end_time = EndTime 502100000, row_duration = Some 2000000000,
       row_times_opened_today = 7\<rparr>]]"

definition ex_row :: "int64 \<Rightarrow> row" where
  "ex_row n = \<lparr>row_date = 0, row_start_time = 1001500000, row_expected_end_time = 1003500000,
               row_actual_end_time = EndTime 1004520000, row_duration = Some 2000000000,
               row_times_opened_today = n\<rparr>"

text \<open>A process table with a process whose name differs in case and two processes of
  the name looked for, and one without any process of that name.\<close>

definition ex_crowd :: world where
  "ex_crowd = ex_world\<lparr>procs := (\<lambda>t. [(''App'', 5), (''app'', 42), (''app'', 43)])\<rparr>"

definition ex_nobody :: world where
  "ex_nobody = ex_world\<lparr>procs := (\<lambda>t. [(''App'', 5), (''application'', 6)])\<rparr>"

text \<open>The report object over the table of one record, at the moment \<^verbatim>\<open>__init__\<close> asks for
  the count; a store whose record of the day has the largest count that 64 bits hold,
  and the report object over it.\<close>

definition ex_init_report :: report where
  "ex_init_report = \<lparr>date = 0, report_dir = ''reports'',
                     report_file_name = ''reports/app_report.csv'',
                     report_df = ex_ledger, times_opened = 0\<rparr>"

definition ex_full_store :: "string \<rightharpoonup> row list" where
  "ex_full_store = [''reports/app_report.csv'' \<mapsto> [ex_row 9223372036854775807]]"

definition ex_full_report :: report where
  "ex_full_report = ex_init_report\<lparr>report_df := [ex_row 9223372036854775807]\<rparr>"

section \<open>Basic facts about the primitives and the loops\<close>

lemma elapse_fields [simp]:
  "clock (elapse w) = clock w + delays w (tick w)"
  "tick (elapse w) = Suc (tick w)"
  "delays (elapse w) = delays w"
  "procs (elapse w) = procs w"
  "files (elapse w) = files w"
  "platform (elapse w) = platform w"
  "kill_fails (elapse w) = kill_fails w"
  "out (elapse w) = out w"
  by (simp_all add: elapse_def)

lemma print_fields [simp]:
  "clock (print e w) = clock w"
  "tick (print e w) = tick w"
  "delays (print e w) = delays w"
  "procs (print e w) = procs w"
  "files (print e w) = files w"
  "platform (print e w) = platform w"
  "kill_fails (print e w) = kill_fails w"
  "out (print e w) = out w @ [e]"
  by (simp_all add: print_def)

lemma to_csv_fields [simp]:
  "clock (to_csv f rows w) = clock w"
  "tick (to_csv f rows w) = tick w"
  "delays (to_csv f rows w) = delays w"
  "procs (to_csv f rows w) = procs w"
  "files (to_csv f rows w) = (files w)(f \<mapsto> rows)"
  "platform (to_csv f rows w) = platform w"
  "kill_fails (to_csv f rows w) = kill_fails w"
  "out (to_csv f rows w) = out w @ [ToCsv f rows]"
  by (simp_all add: to_csv_def)

lemma sleep_for_fields [simp]:
  "clock (sleep_for i w) = clock w + i + delays w (tick w)"
  "tick (sleep_for i w) = Suc (tick w)"
  "delays (sleep_for i w) = delays w"
  "procs (sleep_for i w) = procs w"
  "files (sleep_for i w) = files w"
  "platform (sleep_for i w) = platform w"
  "kill_fails (sleep_for i w) = kill_fails w"
  "out (sleep_for i w) = out w"
  by (simp_all add: sleep_for_def elapse_def)

lemma datetime_now_eq: "datetime_now w = (\<lfloor>clock (elapse w) * 1000000\<rfloor>, elapse w)"
  by (simp add: datetime_now_def Let_def)

lemma get_state_eq:
  "get_state args p w =
     (get_state_loop (arg_process args) (procs w (clock (elapse w))), elapse w)"
  by (simp add: get_state_def process_iter_def Let_def)

lemma get_pid_eq:
  "get_pid args p w =
     (get_pid_loop (arg_process args) (procs w (clock (elapse w))), elapse w)"
  by (simp add: get_pid_def process_iter_def Let_def)

lemma time_sleep_eq:
  "time_sleep i w = (if i < 0 then Inl ValueError else Inr (sleep_for i w))"
  by (simp add: time_sleep_def)

lemma get_pid_loop_notin: "n \<notin> fst ` set ps \<Longrightarrow> get_pid_loop n ps = - 1"
  by (induction ps) auto

lemma get_pid_loop_find:
  "get_pid_loop n ps = (case find (\<lambda>q. fst q = n) ps of None \<Rightarrow> - 1 | Some q \<Rightarrow> snd q)"
  by (induction ps) auto

lemma get_state_loop_On: "get_state_loop n ps = On \<longleftrightarrow> n \<in> fst ` set ps"
  by (induction ps) auto

lemma get_state_loop_Off: "get_state_loop n ps = Off \<longleftrightarrow> n \<notin> fst ` set ps"
  using get_state_loop_On [of n ps] by (cases "get_state_loop n ps") auto

lemma monitor_loop_induct [consumes 1, case_names cond_error exit body_error step]:
  assumes run: "monitor_loop args self i st cur w = Some r"
    and cond_error: "\<And>st cur w e. monitor_cond self st cur = Inl e \<Longrightarrow> P st cur w (Inl e)"
    and exit: "\<And>st cur w. monitor_cond self st cur = Inr False \<Longrightarrow> P st cur w (Inr w)"
    and body_error: "\<And>st cur w e. monitor_cond self st cur = Inr True \<Longrightarrow>
          monitor_body args self i cur w = Inl e \<Longrightarrow> P st cur w (Inl e)"
    and step: "\<And>st cur w st' cur' w' r. monitor_cond self st cur = Inr True \<Longrightarrow>
          monitor_body args self i cur w = Inr (st', cur', w') \<Longrightarrow>
          monitor_loop args self i st' cur' w' = Some r \<Longrightarrow> P st' cur' w' r \<Longrightarrow>
          P st cur w r"
  shows "P st cur w r"
proof -
  let ?Q = "\<lambda>a s' i' st cur w r. a = args \<and> s' = self \<and> i' = i \<longrightarrow>
              monitor_loop args self i st cur w = Some r \<and> P st cur w r"
  have "?Q args self i st cur w r"
  proof (rule monitor_loop.raw_induct [where P = ?Q, OF _ run], intro impI, elim conjE)
    fix loop :: "args \<Rightarrow> process \<Rightarrow> rat \<Rightarrow> state \<Rightarrow> datetime \<Rightarrow> world \<Rightarrow> (error + world) option"
    fix a s' i' st cur w r
    assume IH: "\<And>a s' i' st cur w r. loop a s' i' st cur w = Some r \<Longrightarrow> ?Q a s' i' st cur w r"
    assume eqs: "a = args" "s' = self" "i' = i"
    assume eq: "(case monitor_cond s' st cur of
        Inl err \<Rightarrow> Some (Inl err)
      | Inr continue \<Rightarrow>
          if continue then
            (case monitor_body a s' i' cur w of
               Inl err \<Rightarrow> Some (Inl err)
             | Inr (st', current_time', w') \<Rightarrow> loop a s' i' st' current_time' w')
          else Some (Inr w)) = Some r"
    show "monitor_loop args self i st cur w = Some r \<and> P st cur w r"
    proof (cases "monitor_cond self st cur")
      case (Inl e)
      with eq eqs have "r = Inl e" by simp
      with Inl cond_error show ?thesis by (subst monitor_loop.simps) simp
    next
      case (Inr c)
      show ?thesis
      proof (cases c)
        case False
        with Inr eq eqs have "r = Inr w" by simp
        with Inr False exit show ?thesis by (subst monitor_loop.simps) simp
      next
        case True
        show ?thesis
        proof (cases "monitor_body args self i cur w")
          case (Inl e)
          with Inr True eq eqs have "r = Inl e" by simp
          with Inr True Inl body_error show ?thesis by (subst monitor_loop.simps) simp
        next
          case b: (Inr t)
          obtain st' cur' w' where t: "t = (st', cur', w')" by (cases t) auto
          from Inr True b t eq eqs have "loop args self i st' cur' w' = Some r" by simp
          from IH [OF this] have rec: "monitor_loop args self i st' cur' w' = Some r"
            and P': "P st' cur' w' r" by simp_all
          from Inr True b t rec have "monitor_loop args self i st cur w = Some r"
            by (subst monitor_loop.simps) simp
          moreover from step [OF _ _ rec P'] Inr True b t have "P st cur w r" by simp
          ultimately show ?thesis ..
        qed
      qed
    qed
  qed
  then show ?thesis by simp
qed

lemma wait_loop_induct [consumes 1, case_names started poll]:
  assumes run: "wait_loop args self st w = Some r"
    and started: "\<And>st w. st \<noteq> Off \<Longrightarrow> P st w (Inr w)"
    and poll: "\<And>w st' w' r. get_state args self (sleep_for (1 / 10) w) = (st', w') \<Longrightarrow>
          wait_loop args self st' w' = Some r \<Longrightarrow> P st' w' r \<Longrightarrow> P Off w r"
  shows "P st w r"
proof -
  let ?Q = "\<lambda>a s' st w r. a = args \<and> s' = self \<longrightarrow>
              wait_loop args self st w = Some r \<and> P st w r"
  have "?Q args self st w r"
  proof (rule wait_loop.raw_induct [where P = ?Q, OF _ run], intro impI, elim conjE)
    fix loop :: "args \<Rightarrow> process \<Rightarrow> state \<Rightarrow> world \<Rightarrow> (error + world) option"
    fix a s' st w r
    assume IH: "\<And>a s' st w r. loop a s' st w = Some r \<Longrightarrow> ?Q a s' st w r"
    assume eqs: "a = args" "s' = self"
    assume eq: "(if st = Off then
        (case time_sleep (1 / 10) w of
           Inl err \<Rightarrow> Some (Inl err)
         | Inr w1 \<Rightarrow> (case get_state a s' w1 of (st', w2) \<Rightarrow> loop a s' st' w2))
      else Some (Inr w)) = Some r"
    show "wait_loop args self st w = Some r \<and> P st w r"
    proof (cases "st = Off")
      case False
      with eq have "r = Inr w" by simp
      with False started show ?thesis by (subst wait_loop.simps) simp
    next
      case True
      obtain st' w' where g: "get_state args self (sleep_for (1 / 10) w) = (st', w')"
        by (cases "get_state args self (sleep_for (1 / 10) w)") auto
      from True g eq eqs have "loop args self st' w' = Some r"
        by (simp add: time_sleep_eq)
      from IH [OF this] have rec: "wait_loop args self st' w' = Some r" and P': "P st' w' r"
        by simp_all
      from True g rec have "wait_loop args self st w = Some r"
        by (subst wait_loop.simps) (simp add: time_sleep_eq)
      moreover from poll [OF g rec P'] True have "P st w r" by simp
      ultimately show ?thesis ..
    qed
  qed
  then show ?thesis by simp
qed


lemma same_env_refl [simp]: "same_env w w"
  by (simp add: same_env_def)

lemma same_env_trans: "same_env w w1 \<Longrightarrow> same_env w1 w2 \<Longrightarrow> same_env w w2"
  by (simp add: same_env_def)

lemma same_env_prims [simp]:
  "same_env w (elapse w)" "same_env w (print e w)" "same_env w (to_csv f rows w)"
  "same_env w (sleep_for i w)"
  by (simp_all add: same_env_def)

lemma monitor_cond_Some:
  "end_time self = Some e \<Longrightarrow> monitor_cond self st cur = Inr (st = On \<and> cur < e)"
  by (simp add: monitor_cond_def)

lemma monitor_cond_TrueD:
  "monitor_cond self st cur = Inr True \<Longrightarrow> st = On \<and> (\<exists>e. end_time self = Some e \<and> cur < e)"
  by (auto simp: monitor_cond_def split: if_splits option.splits)

lemma monitor_cond_error: "monitor_cond self st cur = Inl e \<Longrightarrow> e = TypeError"
  by (auto simp: monitor_cond_def split: if_splits option.splits)

lemma monitor_bodyD:
  assumes "monitor_body args self i cur w = Inr (st', cur', w')"
  shows "\<exists>pct. get_duration_percentage (start_time self) (end_time self) cur = Inr pct \<and>
           0 \<le> i \<and>
           w' = elapse (elapse (sleep_for i (print (PrintMonitoring pct) w))) \<and>
           cur' = \<lfloor>clock (elapse (sleep_for i (print (PrintMonitoring pct) w))) * 1000000\<rfloor> \<and>
           st' = get_state_loop (arg_process args) (procs w (clock w'))"
  using assms
  by (auto simp: monitor_body_def time_sleep_eq datetime_now_eq get_state_eq
      split: sum.splits if_splits)

lemma monitor_body_error:
  "monitor_body args self i cur w = Inl e \<Longrightarrow>
     get_duration_percentage (start_time self) (end_time self) cur = Inl e \<or> e = ValueError"
  by (auto simp: monitor_body_def time_sleep_eq datetime_now_eq get_state_eq
      split: sum.splits if_splits)

lemma gdp_ok:
  "s \<le> cur \<Longrightarrow> cur < e \<Longrightarrow>
   \<exists>pct. get_duration_percentage (Some s) (Some e) cur = Inr pct"
  by (simp add: get_duration_percentage_def Let_def)

lemma floor_mono_scaled:
  fixes c c' :: rat
  shows "of_int s \<le> c * 1000000 \<Longrightarrow> c \<le> c' \<Longrightarrow> s \<le> \<lfloor>c' * 1000000\<rfloor>"
  by (simp add: le_floor_iff)

lemma safe_start_step:
  assumes "safe_start s self cur w"
    and "monitor_body args self i cur w = Inr (st', cur', w')"
  shows "safe_start s self cur' w'"
proof -
  from monitor_bodyD [OF assms(2)] obtain pct where i0: "0 \<le> i"
    and w': "w' = elapse (elapse (sleep_for i (print (PrintMonitoring pct) w)))"
    and cur': "cur' = \<lfloor>clock (elapse (sleep_for i (print (PrintMonitoring pct) w))) * 1000000\<rfloor>"
    by blast
  from assms(1) have mono: "\<And>k. 0 \<le> delays w k" and st: "start_time self = Some s"
    and cl: "of_int s \<le> clock w * 1000000"
    by (simp_all add: safe_start_def monotone_clock_def)
  have c2: "clock w \<le> clock (elapse (sleep_for i (print (PrintMonitoring pct) w)))"
    using mono i0 by (simp add: add_nonneg_nonneg)
  have c3: "clock w \<le> clock w'" unfolding w' using mono i0 by (simp add: add_nonneg_nonneg)
  have "s \<le> cur'" unfolding cur' using floor_mono_scaled [OF cl c2] .
  moreover have "of_int s \<le> clock w' * 1000000" using cl c3
    by (meson mult_right_mono order_trans zero_le_numeral)
  moreover have "monotone_clock w'" using mono by (simp add: monotone_clock_def w')
  ultimately show ?thesis using st by (simp add: safe_start_def)
qed

lemma monitor_loop_no_zero_division:
  assumes "monitor_loop args self i st cur w = Some r"
  shows "safe_start s self cur w \<longrightarrow> r \<noteq> Inl ZeroDivisionError"
  using assms
proof (induction rule: monitor_loop_induct)
  case (cond_error st cur w e)
  then show ?case by (auto dest: monitor_cond_error)
next
  case (exit st cur w)
  then show ?case by simp
next
  case (body_error st cur w e)
  have "e \<noteq> ZeroDivisionError" if safe: "safe_start s self cur w"
  proof -
    from monitor_cond_TrueD [OF body_error(1)] obtain e' where
      e': "end_time self = Some e'" "cur < e'" by blast
    from safe have "start_time self = Some s" "s \<le> cur" by (simp_all add: safe_start_def)
    with gdp_ok [of s cur e'] e' obtain pct where
      "get_duration_percentage (start_time self) (end_time self) cur = Inr pct" by auto
    with monitor_body_error [OF body_error(2)] show "e \<noteq> ZeroDivisionError" by auto
  qed
  then show ?case by simp
next
  case (step st cur w st' cur' w' r)
  then show ?case using safe_start_step by blast
qed

lemma monitor_loop_frame:
  assumes "monitor_loop args self i st cur w = Some r"
  shows "\<forall>w'. r = Inr w' \<longrightarrow> files w' = files w \<and> same_env w w' \<and>
           (\<exists>pcts. out w' = out w @ map PrintMonitoring pcts) \<and>
           (monotone_clock w \<longrightarrow> clock w \<le> clock w')"
  using assms
proof (induction rule: monitor_loop_induct)
  case (cond_error st cur w e)
  then show ?case by simp
next
  case (exit st cur w)
  show ?case by (auto intro: exI [of _ "[]"])
next
  case (body_error st cur w e)
  then show ?case by simp
next
  case (step st cur w st' cur' w1 r)
  from monitor_bodyD [OF step(2)] obtain pct where i0: "0 \<le> i"
    and w1: "w1 = elapse (elapse (sleep_for i (print (PrintMonitoring pct) w)))"
    by blast
  show ?case
  proof (intro allI impI)
    fix w' assume r: "r = Inr w'"
    with step(4) have f: "files w' = files w1" and e: "same_env w1 w'"
      and m: "monotone_clock w1 \<longrightarrow> clock w1 \<le> clock w'"
      and o: "\<exists>pcts. out w' = out w1 @ map PrintMonitoring pcts" by blast+
    from o obtain pcts where "out w' = out w1 @ map PrintMonitoring pcts" ..
    then have "out w' = out w @ map PrintMonitoring (pct # pcts)" by (simp add: w1)
    then have o': "\<exists>pcts. out w' = out w @ map PrintMonitoring pcts" ..
    have e': "same_env w w'" using e by (simp add: same_env_def w1)
    have m': "monotone_clock w \<longrightarrow> clock w \<le> clock w'"
    proof
      assume mw: "monotone_clock w"
      then have "monotone_clock w1" by (simp add: monotone_clock_def w1)
      with m have "clock w1 \<le> clock w'" by simp
      moreover have "clock w \<le> clock w1" using mw i0
        by (simp add: w1 monotone_clock_def add_nonneg_nonneg)
      ultimately show "clock w \<le> clock w'" by simp
    qed
    from f o' e' m' show "files w' = files w \<and> same_env w w' \<and>
           (\<exists>pcts. out w' = out w @ map PrintMonitoring pcts) \<and>
           (monotone_clock w \<longrightarrow> clock w \<le> clock w')" by (simp add: w1)
  qed
qed

lemma wait_loop_frame:
  assumes "wait_loop args self st w = Some r"
  shows "\<exists>w'. r = Inr w' \<and> files w' = files w \<and> same_env w w' \<and> out w' = out w \<and>
           (monotone_clock w \<longrightarrow> clock w \<le> clock w')"
  using assms
proof (induction rule: wait_loop_induct)
  case (started st w)
  then show ?case by simp
next
  case (poll w st' w1 r)
  from poll(1) have w1: "w1 = elapse (sleep_for (1 / 10) w)" by (simp add: get_state_eq)
  from poll(3) obtain w' where r: "r = Inr w'" and f: "files w' = files w1"
    and e: "same_env w1 w'" and o: "out w' = out w1"
    and m: "monotone_clock w1 \<longrightarrow> clock w1 \<le> clock w'" by blast
  have m': "monotone_clock w \<longrightarrow> clock w \<le> clock w'"
  proof
    assume mw: "monotone_clock w"
    then have "monotone_clock w1" by (simp add: monotone_clock_def w1)
    with m have "clock w1 \<le> clock w'" by simp
    moreover have "clock w \<le> clock w1" using mw
      by (simp add: w1 monotone_clock_def add_nonneg_nonneg)
    ultimately show "clock w \<le> clock w'" by simp
  qed
  from r f e o m' show ?case by (simp add: w1 same_env_def)
qed


lemma monitor_loop_exit:
  "monitor_cond self st cur = Inr False \<Longrightarrow> monitor_loop args self i st cur w = Some (Inr w)"
  by (subst monitor_loop.simps) simp

lemma monitor_loop_step:
  "monitor_cond self st cur = Inr True \<Longrightarrow>
   monitor_body args self i cur w = Inr (st', cur', w') \<Longrightarrow>
   monitor_loop args self i st cur w = monitor_loop args self i st' cur' w'"
  by (subst monitor_loop.simps) simp

lemma monitor_body_ok:
  assumes "start_time self = Some s" "end_time self = Some e" "s \<le> cur" "cur < e" "0 \<le> i"
  shows "\<exists>pct st'. monitor_body args self i cur w =
           Inr (st', \<lfloor>clock (elapse (sleep_for i (print (PrintMonitoring pct) w))) * 1000000\<rfloor>,
                elapse (elapse (sleep_for i (print (PrintMonitoring pct) w))))"
proof -
  from gdp_ok [OF assms(3,4)] obtain pct where
    "get_duration_percentage (Some s) (Some e) cur = Inr pct" ..
  with assms show ?thesis
    by (intro exI [of _ pct]) (simp add: monitor_body_def time_sleep_eq datetime_now_eq get_state_eq)
qed

lemma bounded_delaysD:
  "bounded_delays b w \<Longrightarrow> 0 \<le> delays w k" "bounded_delays b w \<Longrightarrow> delays w k \<le> b"
  by (simp_all add: bounded_delays_def)

lemma monitor_loop_total:
  fixes n :: nat
  assumes st: "start_time self = Some s" and en: "end_time self = Some e" and i: "0 < i"
  shows "bounded_delays b w \<Longrightarrow> s \<le> cur \<Longrightarrow> of_int s \<le> clock w * 1000000 \<Longrightarrow>
         (clock w - b) * 1000000 < of_int cur + 1 \<Longrightarrow>
         of_int e - clock w * 1000000 \<le> of_nat n * (i * 1000000) \<Longrightarrow>
         \<exists>w'. monitor_loop args self i st' cur w = Some (Inr w') \<and>
              (clock w' = clock w \<or> clock w' < of_int e / 1000000 + i + 4 * b)"
proof (induction n arbitrary: st' cur w)
  case 0
  show ?case
  proof (cases "st' = On \<and> cur < e")
    case False
    then have "monitor_cond self st' cur = Inr False" by (simp add: monitor_cond_Some [OF en])
    from monitor_loop_exit [OF this] show ?thesis by simp
  next
    case True
    then have c: "monitor_cond self st' cur = Inr True" by (simp add: monitor_cond_Some [OF en])
    from monitor_body_ok [OF st en "0.prems"(2) _ less_imp_le [OF i], where args = args and w = w] True
    obtain pct st2 where
      b: "monitor_body args self i cur w =
           Inr (st2, \<lfloor>clock (elapse (sleep_for i (print (PrintMonitoring pct) w))) * 1000000\<rfloor>,
                elapse (elapse (sleep_for i (print (PrintMonitoring pct) w))))" by blast
    let ?w2 = "elapse (sleep_for i (print (PrintMonitoring pct) w))"
    let ?w3 = "elapse ?w2"
    note d = bounded_delaysD [OF "0.prems"(1)]
    have "clock w \<le> clock ?w2" using d(1) i by (simp add: add_nonneg_nonneg)
    moreover have "of_int e \<le> clock w * 1000000" using "0.prems"(5) by simp
    ultimately have "of_int e \<le> clock ?w2 * 1000000"
      by (meson mult_right_mono order_trans zero_le_numeral)
    then have "e \<le> \<lfloor>clock ?w2 * 1000000\<rfloor>" by (simp add: le_floor_iff)
    then have "monitor_cond self st2 \<lfloor>clock ?w2 * 1000000\<rfloor> = Inr False"
      by (simp add: monitor_cond_Some [OF en])
    from monitor_loop_exit [OF this] monitor_loop_step [OF c b]
    have r: "monitor_loop args self i st' cur w = Some (Inr ?w3)" by simp
    have "of_int cur + 1 \<le> (of_int e :: rat)" using True by linarith
    with "0.prems"(4) have "clock w < of_int e / 1000000 + b" by (simp add: field_simps)
    moreover have "clock ?w3 \<le> clock w + i + 3 * b"
      using d(2) [of "tick w"] d(2) [of "Suc (tick w)"] d(2) [of "Suc (Suc (tick w))"] by simp
    ultimately have "clock ?w3 < of_int e / 1000000 + i + 4 * b" by simp
    with r show ?thesis by blast
  qed
next
  case (Suc n)
  show ?case
  proof (cases "st' = On \<and> cur < e")
    case False
    then have "monitor_cond self st' cur = Inr False" by (simp add: monitor_cond_Some [OF en])
    from monitor_loop_exit [OF this] show ?thesis by simp
  next
    case True
    then have c: "monitor_cond self st' cur = Inr True" by (simp add: monitor_cond_Some [OF en])
    from monitor_body_ok [OF st en Suc.prems(2) _ less_imp_le [OF i], where args = args and w = w] True
    obtain pct st2 where
      b: "monitor_body args self i cur w =
           Inr (st2, \<lfloor>clock (elapse (sleep_for i (print (PrintMonitoring pct) w))) * 1000000\<rfloor>,
                elapse (elapse (sleep_for i (print (PrintMonitoring pct) w))))" by blast
    let ?w2 = "elapse (sleep_for i (print (PrintMonitoring pct) w))"
    let ?w3 = "elapse ?w2"
    note d = bounded_delaysD [OF Suc.prems(1)]
    have c2: "clock w \<le> clock ?w2" using d(1) i by (simp add: add_nonneg_nonneg)
    have c3: "clock w + i \<le> clock ?w3" using d(1) [of "tick w"] d(1) [of "Suc (tick w)"]
        d(1) [of "Suc (Suc (tick w))"] by simp
    have p1: "bounded_delays b ?w3" using Suc.prems(1) by (simp add: bounded_delays_def)
    have p2: "s \<le> \<lfloor>clock ?w2 * 1000000\<rfloor>" using floor_mono_scaled [OF Suc.prems(3) c2] .
    have p3: "of_int s \<le> clock ?w3 * 1000000"
    proof -
      have "clock w \<le> clock ?w3" using c3 i by simp
      with Suc.prems(3) show ?thesis by (meson mult_right_mono order_trans zero_le_numeral)
    qed
    have p4: "(clock ?w3 - b) * 1000000 < of_int \<lfloor>clock ?w2 * 1000000\<rfloor> + 1"
    proof -
      have "clock ?w3 - b \<le> clock ?w2" using d(2) [of "Suc (Suc (tick w))"] by simp
      then have "(clock ?w3 - b) * 1000000 \<le> clock ?w2 * 1000000" by simp
      also have "\<dots> < of_int \<lfloor>clock ?w2 * 1000000\<rfloor> + 1" by linarith
      finally show ?thesis .
    qed
    have p5: "of_int e - clock ?w3 * 1000000 \<le> of_nat n * (i * 1000000)"
    proof -
      have "(clock w + i) * 1000000 \<le> clock ?w3 * 1000000" using c3 by simp
      with Suc.prems(5) show ?thesis by (simp add: algebra_simps)
    qed
    from Suc.IH [OF p1 p2 p3 p4 p5, of st2] obtain w' where
      r: "monitor_loop args self i st2 \<lfloor>clock ?w2 * 1000000\<rfloor> ?w3 = Some (Inr w')"
      and cl: "clock w' = clock ?w3 \<or> clock w' < of_int e / 1000000 + i + 4 * b" by blast
    have "of_int cur + 1 \<le> (of_int e :: rat)" using True by linarith
    with Suc.prems(4) have "clock w < of_int e / 1000000 + b" by (simp add: field_simps)
    moreover have "clock ?w3 \<le> clock w + i + 3 * b"
      using d(2) [of "tick w"] d(2) [of "Suc (tick w)"] d(2) [of "Suc (Suc (tick w))"] by simp
    ultimately have "clock ?w3 < of_int e / 1000000 + i + 4 * b" by simp
    with cl have "clock w' < of_int e / 1000000 + i + 4 * b" by auto
    with r monitor_loop_step [OF c b] show ?thesis by auto
  qed
qed


lemma bounded_monotone: "bounded_delays b w \<Longrightarrow> monotone_clock w"
  by (simp add: bounded_delays_def monotone_clock_def)

lemma bounded_nonneg: "bounded_delays b w \<Longrightarrow> 0 \<le> b"
  by (meson bounded_delaysD order_trans)

lemma of_int_div_1000: "(of_int (d div 1000) :: rat) \<le> of_int d / 1000"
proof -
  have "d div 1000 * 1000 \<le> d" by simp
  then have "(of_int (d div 1000 * 1000) :: rat) \<le> of_int d" by (simp only: of_int_le_iff)
  then show ?thesis by (simp add: field_simps)
qed

lemma monitor_eq:
  "duration self = Some d \<Longrightarrow>
   monitor args self w =
     monitor_loop args self (monitor_interval d)
       (get_state_loop (arg_process args) (procs w (clock (elapse w))))
       \<lfloor>clock (elapse (elapse w)) * 1000000\<rfloor> (elapse (elapse w))"
  by (simp add: monitor_def get_state_eq datetime_now_eq)

lemma monitor_total:
  assumes bd: "bounded_delays b w"
    and st: "start_time self = Some s" and du: "duration self = Some d"
    and en: "end_time self = Some (add_timedelta s d)"
    and cl: "of_int s \<le> clock w * 1000000"
  shows "\<exists>w'. monitor args self w = Some (Inr w') \<and> clock w \<le> clock w' \<and>
           (0 < d \<longrightarrow> clock w' - clock w < total_seconds d + monitor_interval d + 4 * b)"
proof -
  let ?w2 = "elapse (elapse w)"
  let ?cur = "\<lfloor>clock ?w2 * 1000000\<rfloor>"
  let ?st = "get_state_loop (arg_process args) (procs w (clock (elapse w)))"
  let ?i = "monitor_interval d"
  let ?e = "add_timedelta s d"
  note d = bounded_delaysD [OF bd]
  have b0: "0 \<le> b" using bd by (rule bounded_nonneg)
  have mono: "monotone_clock ?w2" using bd by (simp add: bounded_delays_def monotone_clock_def)
  have c2: "clock w \<le> clock ?w2" using d(1) [of "tick w"] d(1) [of "Suc (tick w)"] by simp
  have c2b: "clock ?w2 \<le> clock w + 2 * b" using d(2) [of "tick w"] d(2) [of "Suc (tick w)"] by simp
  have s_cur: "s \<le> ?cur" using floor_mono_scaled [OF cl c2] .
  have s_w2: "of_int s \<le> clock ?w2 * 1000000" using cl c2
    by (meson mult_right_mono order_trans zero_le_numeral)
  show ?thesis
  proof (cases "0 < d")
    case False
    then have "d div 1000 \<le> 0" by linarith
    then have "\<not> ?cur < ?e" using s_cur by (simp add: add_timedelta_def)
    then have "monitor_cond self ?st ?cur = Inr False" by (simp add: monitor_cond_Some [OF en])
    from monitor_loop_exit [OF this] have "monitor args self w = Some (Inr ?w2)"
      by (simp add: monitor_eq [OF du])
    with c2 False show ?thesis by simp
  next
    case True
    then have i: "0 < ?i" by (simp add: monitor_interval_def total_seconds_def)
    have p1: "bounded_delays b ?w2" using bd by (simp add: bounded_delays_def)
    have p4: "(clock ?w2 - b) * 1000000 < of_int ?cur + 1"
    proof -
      have "(clock ?w2 - b) * 1000000 \<le> clock ?w2 * 1000000" using b0 by simp
      also have "\<dots> < of_int ?cur + 1" by linarith
      finally show ?thesis .
    qed
    obtain n :: nat where "(of_int ?e - clock ?w2 * 1000000) / (?i * 1000000) \<le> of_nat n"
      using real_arch_simple by blast
    with i have p5: "of_int ?e - clock ?w2 * 1000000 \<le> of_nat n * (?i * 1000000)"
      by (simp add: pos_divide_le_eq)
    from monitor_loop_total [OF st en i p1 s_cur s_w2 p4 p5, of args ?st] obtain w' where
      r: "monitor_loop args self ?i ?st ?cur ?w2 = Some (Inr w')"
      and cw: "clock w' = clock ?w2 \<or> clock w' < of_int ?e / 1000000 + ?i + 4 * b" by blast
    from monitor_loop_frame [OF r] mono have c3: "clock ?w2 \<le> clock w'" by simp
    have D: "0 < total_seconds d" using True by (simp add: total_seconds_def)
    have "of_int ?e / 1000000 \<le> clock w + total_seconds d"
    proof -
      have "(of_int ?e :: rat) = of_int s + of_int (d div 1000)" by (simp add: add_timedelta_def)
      also have "\<dots> \<le> clock w * 1000000 + of_int d / 1000" using cl of_int_div_1000 [of d]
        by linarith
      finally show ?thesis by (simp add: total_seconds_def field_simps)
    qed
    with cw c2b b0 D i have "clock w' - clock w < total_seconds d + ?i + 4 * b" by auto
    with r c2 c3 show ?thesis by (simp add: monitor_eq [OF du])
  qed
qed


lemma prepare_to_monitor_eq:
  "prepare_to_monitor p d w =
     (p\<lparr>duration := Some d, start_time := Some \<lfloor>clock (elapse w) * 1000000\<rfloor>,
        end_time := Some (add_timedelta \<lfloor>clock (elapse w) * 1000000\<rfloor> d)\<rparr>, elapse w)"
  by (simp add: prepare_to_monitor_def datetime_now_eq)

lemma terminate_eq:
  "terminate args p w =
     (let pid = get_pid_loop (arg_process args) (procs w (clock (elapse w)))
      in if platform w = Win32
         then Inr (print (CloseHandle pid) (print (TerminateProcess pid)
                (print (OpenProcess pid) (elapse w))))
         else if kill_fails w pid then Inl OSError else Inr (print (OsKill pid) (elapse w)))"
  by (simp add: terminate_def get_pid_eq os_kill_def Let_def)

lemma terminate_frame:
  assumes "terminate args p w = Inr w'"
  shows "files w' = files w" "same_env w w'"
    "filter is_kill (out w') = filter is_kill (out w) @
       [if platform w = Win32
        then TerminateProcess (get_pid_loop (arg_process args) (procs w (clock (elapse w))))
        else OsKill (get_pid_loop (arg_process args) (procs w (clock (elapse w))))]"
    "filter is_progress (out w') = filter is_progress (out w)"
  using assms by (auto simp: terminate_eq Let_def same_env_def split: if_splits)

lemma get_report_df_eq:
  "get_report_df f w =
     Inr (stored_rows f (files w), if files w f = None then to_csv f [] w else w)"
  by (auto simp: get_report_df_def path_exists_def create_new_report_csv_def read_csv_def
      stored_rows_def split: option.splits)

lemma get_times_opened_today_eq:
  "get_times_opened_today self =
     (if \<forall>r \<in> set (report_df self). row_date r \<noteq> date self then 1
      else row_times_opened_today (last (filter (\<lambda>r. row_date r = date self) (report_df self))) + 1)"
proof -
  let ?t = "filter (\<lambda>r. row_date r = date self) (report_df self)"
  have "?t = [] \<longleftrightarrow> (\<forall>r \<in> set (report_df self). row_date r \<noteq> date self)"
    by (simp add: filter_empty_conv)
  moreover have "nat (get_last_index ?t) = length ?t - 1"
    by (simp add: get_last_index_def)
  then have "?t \<noteq> [] \<Longrightarrow> ?t ! nat (get_last_index ?t) = last ?t"
    by (simp add: last_conv_nth)
  ultimately show ?thesis by (simp add: get_times_opened_today_def Let_def)
qed

lemma get_times_opened_today_cong:
  "date a = date b \<Longrightarrow> report_df a = report_df b \<Longrightarrow>
   get_times_opened_today a = get_times_opened_today b"
  by (simp add: get_times_opened_today_def)

lemma Report_init_eq:
  "Report_init p dir w =
     (let f = get_report_file_name dir p w;
          self = \<lparr>date = startup_day w, report_dir = dir, report_file_name = f,
                  report_df = stored_rows f (files w), times_opened = 0\<rparr>
      in Inr (self\<lparr>times_opened := sint (get_times_opened_today self)\<rparr>,
              if files w f = None then to_csv f [] (elapse w) else elapse w))"
  by (simp add: Report_init_def datetime_now_eq get_report_df_eq Let_def startup_day_def
      get_report_file_name_def os_sep_def stored_rows_def)

lemma df_loc_set_append: "df_loc_set df (get_last_index df + 1) r = df @ [r]"
  by (simp add: df_loc_set_def get_last_index_def)

lemma df_update_last:
  "df_update (df @ [r]) (get_last_index (df @ [r])) v = df @ [r\<lparr>row_actual_end_time := v\<rparr>]"
  by (simp add: df_update_def get_last_index_def)

lemma report_start_eq:
  "start_time p = Some st \<Longrightarrow> end_time p = Some en \<Longrightarrow>
   report_start self p w =
     (let df = report_df self @
            [\<lparr>row_date = date self, row_start_time = time_of st,
              row_expected_end_time = time_of en, row_actual_end_time = Unknown,
              row_duration = duration p,
              row_times_opened_today = get_times_opened_today self\<rparr>]
      in Inr (self\<lparr>report_df := df\<rparr>, to_csv (report_file_name self) df w))"
  by (simp add: report_start_def df_loc_set_append Let_def)

lemma report_termination_eq:
  "report_termination self w =
     (let df = df_update (report_df self) (get_last_index (report_df self))
                 (EndTime (time_of \<lfloor>clock (elapse w) * 1000000\<rfloor>))
      in (self\<lparr>report_df := df\<rparr>, to_csv (report_file_name self) df (elapse w)))"
  by (simp add: report_termination_def datetime_now_eq Let_def)


lemma main_session_eq:
  "main_session args p0 rep0 w =
    (let t = \<lfloor>clock (elapse w) * 1000000\<rfloor>; D = arg_duration args;
         p = p0\<lparr>duration := Some D, start_time := Some t, end_time := Some (add_timedelta t D)\<rparr>;
         df = report_df rep0 @
            [\<lparr>row_date = date rep0, row_start_time = time_of t,
              row_expected_end_time = time_of (add_timedelta t D), row_actual_end_time = Unknown,
              row_duration = Some D,
              row_times_opened_today = get_times_opened_today rep0\<rparr>];
         rep = rep0\<lparr>report_df := df\<rparr>;
         w2 = to_csv (report_file_name rep0) df (elapse w)
     in if arg_max_times_opened args < times_opened rep0
        then Some (terminate args p (snd (report_termination rep
               (print (PrintTooMany (times_opened rep0) (arg_max_times_opened args)) w2))))
        else (case monitor args p
                    (print (PrintWillTerminate (total_seconds D / 60) (Some (add_timedelta t D)))
                      (print (PrintStartTime (Some t)) w2)) of
                None \<Rightarrow> None
              | Some (Inl e) \<Rightarrow> Some (Inl e)
              | Some (Inr w5) \<Rightarrow>
                  Some (terminate args p (snd (report_termination rep
                    (print PrintDurationPassed w5))))))"
  by (simp add: main_session_def prepare_to_monitor_eq report_start_eq Let_def
      split: option.splits sum.splits prod.splits)

lemma main_until_terminate_eq:
  "main_until_terminate args p0 rep0 w =
    (let t = \<lfloor>clock (elapse w) * 1000000\<rfloor>; D = arg_duration args;
         p = p0\<lparr>duration := Some D, start_time := Some t, end_time := Some (add_timedelta t D)\<rparr>;
         df = report_df rep0 @
            [\<lparr>row_date = date rep0, row_start_time = time_of t,
              row_expected_end_time = time_of (add_timedelta t D), row_actual_end_time = Unknown,
              row_duration = Some D,
              row_times_opened_today = get_times_opened_today rep0\<rparr>];
         rep = rep0\<lparr>report_df := df\<rparr>;
         w2 = to_csv (report_file_name rep0) df (elapse w)
     in if arg_max_times_opened args < times_opened rep0
        then Some (Inr (p, snd (report_termination rep
               (print (PrintTooMany (times_opened rep0) (arg_max_times_opened args)) w2))))
        else (case monitor args p
                    (print (PrintWillTerminate (total_seconds D / 60) (Some (add_timedelta t D)))
                      (print (PrintStartTime (Some t)) w2)) of
                None \<Rightarrow> None
              | Some (Inl e) \<Rightarrow> Some (Inl (e, files w2))
              | Some (Inr w5) \<Rightarrow>
                  Some (Inr (p, snd (report_termination rep
                    (print PrintDurationPassed w5))))))"
  by (simp add: main_until_terminate_def prepare_to_monitor_eq report_start_eq Let_def
      split: option.splits sum.splits prod.splits)

lemma main_session_split:
  "main_session args p0 rep0 w =
     (case main_until_terminate args p0 rep0 w of
        None \<Rightarrow> None
      | Some (Inl (e, fs)) \<Rightarrow> Some (Inl e)
      | Some (Inr (p, v)) \<Rightarrow> Some (terminate args p v))"
  by (simp add: main_session_eq main_until_terminate_eq Let_def
      split: option.splits sum.splits)

lemma report_termination_appended:
  "report_df rep = df @ [r] \<Longrightarrow>
   snd (report_termination rep w) =
     to_csv (report_file_name rep)
       (df @ [r\<lparr>row_actual_end_time := EndTime (time_of \<lfloor>clock (elapse w) * 1000000\<rfloor>)\<rparr>])
       (elapse w)"
  using df_update_last [of df r] by (simp add: report_termination_eq Let_def)

lemma monitor_frame:
  assumes "monitor args self w = Some (Inr w')"
  shows "files w' = files w" "same_env w w'"
    "\<exists>pcts. out w' = out w @ map PrintMonitoring pcts"
    "monotone_clock w \<Longrightarrow> clock w \<le> clock w'"
proof -
  from assms obtain d where d: "duration self = Some d"
    by (cases "duration self") (auto simp: monitor_def)
  let ?w2 = "elapse (elapse w)"
  from assms have "monitor_loop args self (monitor_interval d)
       (get_state_loop (arg_process args) (procs w (clock (elapse w))))
       \<lfloor>clock ?w2 * 1000000\<rfloor> ?w2 = Some (Inr w')"
    by (simp only: monitor_eq [OF d])
  note fr = monitor_loop_frame [OF this, rule_format, OF refl]
  from fr show "files w' = files w" by simp
  from fr show "same_env w w'" by (simp add: same_env_def)
  from fr show "\<exists>pcts. out w' = out w @ map PrintMonitoring pcts" by simp
  show "clock w \<le> clock w'" if m: "monotone_clock w"
  proof -
    from m have "monotone_clock ?w2" by (simp add: monotone_clock_def)
    with fr have "clock ?w2 \<le> clock w'" by simp
    moreover have "clock w \<le> clock ?w2" using m
      by (simp add: monotone_clock_def add_nonneg_nonneg)
    ultimately show ?thesis by simp
  qed
qed

lemma main_session_result:
  assumes "main_session args p0 rep0 w = Some (Inr w')"
  shows "\<exists>r t'. files w' = (files w)(report_file_name rep0 \<mapsto> report_df rep0 @ [r]) \<and>
           row_date r = date rep0 \<and>
           row_times_opened_today r = get_times_opened_today rep0 \<and>
           row_start_time r = time_of (fst (datetime_now w)) \<and>
           row_expected_end_time r =
             time_of (add_timedelta (fst (datetime_now w)) (arg_duration args)) \<and>
           row_duration r = Some (arg_duration args) \<and>
           row_actual_end_time r = EndTime t' \<and>
           same_env w w' \<and>
           length (filter is_kill (out w')) = length (filter is_kill (out w)) + 1"
proof -
  let ?t = "\<lfloor>clock (elapse w) * 1000000\<rfloor>" and ?D = "arg_duration args"
  let ?p = "p0\<lparr>duration := Some ?D, start_time := Some ?t, end_time := Some (add_timedelta ?t ?D)\<rparr>"
  let ?r = "\<lparr>row_date = date rep0, row_start_time = time_of ?t,
              row_expected_end_time = time_of (add_timedelta ?t ?D), row_actual_end_time = Unknown,
              row_duration = Some ?D,
              row_times_opened_today = get_times_opened_today rep0\<rparr>"
  let ?df = "report_df rep0 @ [?r]"
  let ?rep = "rep0\<lparr>report_df := ?df\<rparr>"
  let ?f = "report_file_name rep0"
  let ?w2 = "to_csv ?f ?df (elapse w)"
  have close: "\<And>v. snd (report_termination ?rep v) =
     to_csv ?f (report_df rep0 @ [?r\<lparr>row_actual_end_time := EndTime (time_of \<lfloor>clock (elapse v) * 1000000\<rfloor>)\<rparr>])
       (elapse v)"
    using report_termination_appended [of ?rep "report_df rep0" ?r] by simp
  have fin: "\<exists>r t'. files w' = (files w)(?f \<mapsto> report_df rep0 @ [r]) \<and>
           row_date r = date rep0 \<and>
           row_times_opened_today r = get_times_opened_today rep0 \<and>
           row_start_time r = time_of (fst (datetime_now w)) \<and>
           row_expected_end_time r =
             time_of (add_timedelta (fst (datetime_now w)) (arg_duration args)) \<and>
           row_duration r = Some (arg_duration args) \<and>
           row_actual_end_time r = EndTime t' \<and>
           same_env w w' \<and>
           length (filter is_kill (out w')) = length (filter is_kill (out w)) + 1"
    if v: "files v = files ?w2" "same_env ?w2 v" "filter is_kill (out v) = filter is_kill (out w)"
      and t: "terminate args ?p (snd (report_termination ?rep v)) = Inr w'" for v
  proof -
    let ?t' = "time_of \<lfloor>clock (elapse v) * 1000000\<rfloor>"
    let ?r' = "?r\<lparr>row_actual_end_time := EndTime ?t'\<rparr>"
    let ?v' = "to_csv ?f (report_df rep0 @ [?r']) (elapse v)"
    from t close have t': "terminate args ?p ?v' = Inr w'" by simp
    note fr = terminate_frame [OF t']
    have "files w' = (files w)(?f \<mapsto> report_df rep0 @ [?r'])" using fr(1) v(1) by simp
    moreover have "same_env w w'" using fr(2) v(2) by (simp add: same_env_def)
    moreover have "length (filter is_kill (out w')) = length (filter is_kill (out w)) + 1"
      using fr(3) v(3) by simp
    ultimately show ?thesis
      by (intro exI [of _ ?r'] exI [of _ ?t']) (simp add: datetime_now_eq)
  qed
  show ?thesis
  proof (cases "arg_max_times_opened args < times_opened rep0")
    case True
    let ?v = "print (PrintTooMany (times_opened rep0) (arg_max_times_opened args)) ?w2"
    from assms True have "terminate args ?p (snd (report_termination ?rep ?v)) = Inr w'"
      by (simp add: main_session_eq Let_def)
    from fin [OF _ _ _ this] show ?thesis by (simp add: same_env_def)
  next
    case False
    let ?w4 = "print (PrintWillTerminate (total_seconds ?D / 60) (Some (add_timedelta ?t ?D)))
                      (print (PrintStartTime (Some ?t)) ?w2)"
    from assms False obtain w5 where m: "monitor args ?p ?w4 = Some (Inr w5)"
      and t: "terminate args ?p (snd (report_termination ?rep (print PrintDurationPassed w5))) = Inr w'"
      by (auto simp: main_session_eq Let_def split: option.splits sum.splits)
    from monitor_frame [OF m] obtain pcts where
      f5: "files w5 = files ?w2" and e5: "same_env ?w2 w5"
      and o5: "out w5 = out ?w4 @ map PrintMonitoring pcts"
      by (auto simp: same_env_def)
    have k5: "filter is_kill (out (print PrintDurationPassed w5)) = filter is_kill (out w)"
      using o5 by (simp add: filter_empty_conv)
    from fin [OF _ _ k5 t] f5 e5 show ?thesis by (simp add: same_env_def)
  qed
qed


lemma startup_day_eq: "startup_day w = date_of \<lfloor>clock (elapse w) * 1000000\<rfloor>"
  by (simp add: startup_day_def datetime_now_eq)

lemma report_path_files [simp]: "report_path args (w\<lparr>files := fs\<rparr>) = report_path args w"
  by (simp add: report_path_def get_report_file_name_def os_sep_def)

lemma startup_day_files [simp]: "startup_day (w\<lparr>files := fs\<rparr>) = startup_day w"
  by (simp add: startup_day_def datetime_now_def elapse_def)

lemma stored_rows_upd [simp]: "stored_rows f (fs(f \<mapsto> rows)) = rows"
  by (simp add: stored_rows_def)

lemma main_startup_result:
  assumes "main_startup args w = Some r"
  shows "\<exists>rep w5. r = Inr (Process_init (arg_process args), rep, w5) \<and>
           date rep = startup_day w \<and>
           report_file_name rep = report_path args w \<and>
           report_df rep = stored_rows (report_path args w) (files w) \<and>
           times_opened rep = sint (get_times_opened_today rep) \<and>
           files w5 = (files w)(report_path args w \<mapsto> stored_rows (report_path args w) (files w)) \<and>
           same_env w w5 \<and>
           filter is_kill (out w5) = filter is_kill (out w) \<and>
           (monotone_clock w \<longrightarrow> clock w \<le> clock w5)"
proof -
  let ?p = "Process_init (arg_process args)"
  let ?f = "report_path args w"
  let ?self = "\<lparr>date = startup_day w, report_dir = arg_report_dir args, report_file_name = ?f,
                  report_df = stored_rows ?f (files w), times_opened = 0\<rparr>"
  let ?rep = "?self\<lparr>times_opened := sint (get_times_opened_today ?self)\<rparr>"
  let ?w1 = "if files w ?f = None then to_csv ?f [] (elapse w) else elapse w"
  have init: "Report_init ?p (arg_report_dir args) w = Inr (?rep, ?w1)"
    by (simp add: Report_init_eq Let_def report_path_def)
  have rep: "date ?rep = startup_day w" "report_file_name ?rep = ?f"
    "report_df ?rep = stored_rows ?f (files w)"
    "times_opened ?rep = sint (get_times_opened_today ?rep)"
    by (simp_all add: get_times_opened_today_def)
  have f1: "files ?w1 = (files w)(?f \<mapsto> stored_rows ?f (files w))"
    by (auto simp: stored_rows_def fun_upd_idem_iff)
  have e1: "same_env w ?w1" by (simp add: same_env_def)
  have k1: "filter is_kill (out ?w1) = filter is_kill (out w)" by simp
  have c1: "monotone_clock w \<longrightarrow> clock w \<le> clock ?w1" by (simp add: monotone_clock_def)
  let ?w2 = "print (PrintStarting ?p) ?w1"
  let ?st = "get_state_loop (arg_process args) (procs ?w2 (clock (elapse ?w2)))"
  let ?w4 = "print (PrintCurrentState ?st) (elapse ?w2)"
  have f4: "files ?w4 = files ?w1" "same_env ?w1 ?w4" "filter is_kill (out ?w4) = filter is_kill (out ?w1)"
    "monotone_clock w \<longrightarrow> clock ?w1 \<le> clock ?w4" "monotone_clock w \<longrightarrow> monotone_clock ?w4"
    by (simp_all add: same_env_def monotone_clock_def)
  from assms init have body: "(case (if ?st = On then Some (Inr (print PrintAlreadyOn ?w4))
                        else wait_until_started args ?p (print PrintWaiting ?w4)) of
                    None \<Rightarrow> None
                  | Some (Inl e) \<Rightarrow> Some (Inl e)
                  | Some (Inr w5) \<Rightarrow> Some (Inr (?p, ?rep, w5))) = Some r"
    by (simp only: main_startup_def Let_def sum.case prod.case get_state_eq)
  have "\<exists>w5. r = Inr (?p, ?rep, w5) \<and> files w5 = files ?w4 \<and> same_env ?w4 w5 \<and>
          filter is_kill (out w5) = filter is_kill (out ?w4) \<and>
          (monotone_clock ?w4 \<longrightarrow> clock ?w4 \<le> clock w5)"
  proof (cases "?st = On")
    case True
    with body have "r = Inr (?p, ?rep, print PrintAlreadyOn ?w4)" by simp
    then show ?thesis by (intro exI [of _ "print PrintAlreadyOn ?w4"]) simp
  next
    case False
    let ?v = "print PrintWaiting ?w4"
    from False body obtain x where wu: "wait_until_started args ?p ?v = Some x"
      by (cases "wait_until_started args ?p ?v") auto
    then have "wait_loop args ?p (get_state_loop (arg_process args) (procs ?v (clock (elapse ?v))))
        (elapse ?v) = Some x"
      by (simp only: wait_until_started_def get_state_eq Let_def prod.case)
    from wait_loop_frame [OF this] obtain w5 where x: "x = Inr w5"
      and f: "files w5 = files (elapse ?v)" and e: "same_env (elapse ?v) w5"
      and o: "out w5 = out (elapse ?v)"
      and m: "monotone_clock (elapse ?v) \<longrightarrow> clock (elapse ?v) \<le> clock w5" by blast
    from False body wu x have "r = Inr (?p, ?rep, w5)" by simp
    moreover have "monotone_clock ?w4 \<longrightarrow> clock ?w4 \<le> clock w5"
    proof
      assume mw: "monotone_clock ?w4"
      then have "monotone_clock (elapse ?v)" by (simp add: monotone_clock_def)
      with m have "clock (elapse ?v) \<le> clock w5" by simp
      moreover have "clock ?w4 \<le> clock (elapse ?v)" using mw by (simp add: monotone_clock_def)
      ultimately show "clock ?w4 \<le> clock w5" by simp
    qed
    ultimately show ?thesis using f e o by (intro exI [of _ w5]) (simp add: same_env_def)
  qed
  then obtain w5 where r: "r = Inr (?p, ?rep, w5)" and f5: "files w5 = files ?w4"
    and e5: "same_env ?w4 w5" and k5: "filter is_kill (out w5) = filter is_kill (out ?w4)"
    and c5: "monotone_clock ?w4 \<longrightarrow> clock ?w4 \<le> clock w5" by blast
  have "same_env w w5" using e1 f4(2) e5 by (meson same_env_trans)
  moreover have "files w5 = (files w)(?f \<mapsto> stored_rows ?f (files w))"
    using f5 f4(1) f1 by simp
  moreover have "filter is_kill (out w5) = filter is_kill (out w)" using k5 f4(3) k1 by simp
  moreover have "monotone_clock w \<longrightarrow> clock w \<le> clock w5"
    using c1 f4(4,5) c5 by auto
  ultimately show ?thesis using r rep by (intro exI [of _ ?rep] exI [of _ w5]) simp
qed


lemma main_result:
  assumes "main args w = Some (Inr w')"
  shows "\<exists>rep r t'. date rep = startup_day w \<and>
           report_df rep = stored_rows (report_path args w) (files w) \<and>
           files w' = (files w)(report_path args w \<mapsto>
                        stored_rows (report_path args w) (files w) @ [r]) \<and>
           row_date r = startup_day w \<and>
           row_times_opened_today r = get_times_opened_today rep \<and>
           row_actual_end_time r = EndTime t' \<and>
           same_env w w' \<and>
           length (filter is_kill (out w')) = length (filter is_kill (out w)) + 1"
proof -
  from assms obtain x where su: "main_startup args w = Some x"
    by (cases "main_startup args w") (auto simp: main_def)
  from main_startup_result [OF su] obtain rep w5 where
    x: "x = Inr (Process_init (arg_process args), rep, w5)"
    and rep: "date rep = startup_day w" "report_file_name rep = report_path args w"
      "report_df rep = stored_rows (report_path args w) (files w)"
    and f5: "files w5 = (files w)(report_path args w \<mapsto> stored_rows (report_path args w) (files w))"
    and e5: "same_env w w5" and k5: "filter is_kill (out w5) = filter is_kill (out w)"
    by blast
  from assms su x have "main_session args (Process_init (arg_process args)) rep w5 = Some (Inr w')"
    by (simp add: main_def)
  from main_session_result [OF this] obtain r t' where
    "files w' = (files w5)(report_file_name rep \<mapsto> report_df rep @ [r])"
    "row_date r = date rep" "row_times_opened_today r = get_times_opened_today rep"
    "row_actual_end_time r = EndTime t'" "same_env w5 w'"
    "length (filter is_kill (out w')) = length (filter is_kill (out w5)) + 1" by blast
  with rep f5 e5 k5 show ?thesis
    by (intro exI [of _ rep] exI [of _ r] exI [of _ t']) (simp add: same_env_def)
qed

lemma sint_succ:
  fixes c :: int64
  assumes "sint c < 9223372036854775807"
  shows "sint (c + 1) = sint c + 1"
proof -
  have "- (2 ^ 63) \<le> sint c" using sint_ge [of c] by simp
  with assms have "signed_take_bit 63 (sint c + 1) = sint c + 1"
    by (intro signed_take_bit_int_eq_self) simp_all
  then show ?thesis by (simp add: sint_word_add)
qed

lemma get_times_opened_today_counts:
  "get_times_opened_today rep =
     (if day_counts (date rep) (report_df rep) = [] then 1
      else last (day_counts (date rep) (report_df rep)) + 1)"
  by (simp add: get_times_opened_today_eq day_counts_def last_map filter_empty_conv)

lemma day_counts_append:
  "day_counts d (rows @ [r]) =
     day_counts d rows @ (if row_date r = d then [row_times_opened_today r] else [])"
  by (simp add: day_counts_def)

lemma next_count:
  assumes "map sint (day_counts (date rep) (report_df rep)) = map int [1..<Suc k]"
    and "int k < 9223372036854775807"
  shows "sint (get_times_opened_today rep) = int k + 1"
proof (cases k)
  case 0
  with assms show ?thesis by (simp add: get_times_opened_today_counts)
next
  case (Suc m)
  let ?cs = "day_counts (date rep) (report_df rep)"
  from assms(1) Suc have ne: "?cs \<noteq> []" by auto
  then have "sint (last ?cs) = last (map sint ?cs)" by (simp add: last_map)
  also have "\<dots> = int k" using Suc by (simp add: assms(1))
  finally have l: "sint (last ?cs) = int k" .
  with assms(2) have "sint (last ?cs + 1) = int k + 1" using sint_succ [of "last ?cs"] by simp
  with ne show ?thesis by (simp add: get_times_opened_today_counts)
qed


lemma main_until_terminate_result:
  assumes "main_until_terminate args p0 rep0 w = Some x"
  shows "\<exists>r. (case x of Inl (e, fs) \<Rightarrow> fs | Inr (p, v) \<Rightarrow> files v) =
             (files w)(report_file_name rep0 \<mapsto> report_df rep0 @ [r]) \<and>
           row_date r = date rep0 \<and>
           row_times_opened_today r = get_times_opened_today rep0"
proof -
  let ?t = "\<lfloor>clock (elapse w) * 1000000\<rfloor>" and ?D = "arg_duration args"
  let ?p = "p0\<lparr>duration := Some ?D, start_time := Some ?t, end_time := Some (add_timedelta ?t ?D)\<rparr>"
  let ?r = "\<lparr>row_date = date rep0, row_start_time = time_of ?t,
              row_expected_end_time = time_of (add_timedelta ?t ?D), row_actual_end_time = Unknown,
              row_duration = Some ?D,
              row_times_opened_today = get_times_opened_today rep0\<rparr>"
  let ?df = "report_df rep0 @ [?r]"
  let ?rep = "rep0\<lparr>report_df := ?df\<rparr>"
  let ?f = "report_file_name rep0"
  let ?w2 = "to_csv ?f ?df (elapse w)"
  let ?fs = "\<lambda>x. case x of Inl (e, fs) \<Rightarrow> fs | Inr (p, v) \<Rightarrow> files v"
  have close: "\<And>u. snd (report_termination ?rep u) =
     to_csv ?f (report_df rep0 @ [?r\<lparr>row_actual_end_time := EndTime (time_of \<lfloor>clock (elapse u) * 1000000\<rfloor>)\<rparr>])
       (elapse u)"
    using report_termination_appended [of ?rep "report_df rep0" ?r] by simp
  have fin: "\<exists>r. ?fs x = (files w)(?f \<mapsto> report_df rep0 @ [r]) \<and>
           row_date r = date rep0 \<and>
           row_times_opened_today r = get_times_opened_today rep0"
    if u: "files u = files ?w2" and t: "x = Inr (?p, snd (report_termination ?rep u))" for u
  proof -
    let ?t' = "time_of \<lfloor>clock (elapse u) * 1000000\<rfloor>"
    let ?r' = "?r\<lparr>row_actual_end_time := EndTime ?t'\<rparr>"
    from t close have "?fs x = files (to_csv ?f (report_df rep0 @ [?r']) (elapse u))" by simp
    then have "?fs x = (files w)(?f \<mapsto> report_df rep0 @ [?r'])" using u by simp
    then show ?thesis by (intro exI [of _ ?r']) simp
  qed
  show ?thesis
  proof (cases "arg_max_times_opened args < times_opened rep0")
    case True
    let ?u = "print (PrintTooMany (times_opened rep0) (arg_max_times_opened args)) ?w2"
    from assms True have "x = Inr (?p, snd (report_termination ?rep ?u))"
      by (simp add: main_until_terminate_eq Let_def)
    from fin [OF _ this] show ?thesis by simp
  next
    case False
    let ?w4 = "print (PrintWillTerminate (total_seconds ?D / 60) (Some (add_timedelta ?t ?D)))
                      (print (PrintStartTime (Some ?t)) ?w2)"
    from assms False obtain y where m: "monitor args ?p ?w4 = Some y"
      by (cases "monitor args ?p ?w4") (auto simp: main_until_terminate_eq Let_def)
    show ?thesis
    proof (cases y)
      case (Inl e)
      with assms False m have "x = Inl (e, files ?w2)"
        by (simp add: main_until_terminate_eq Let_def)
      then have "?fs x = (files w)(?f \<mapsto> report_df rep0 @ [?r])" by simp
      then show ?thesis by (intro exI [of _ ?r]) simp
    next
      case (Inr w5)
      with assms False m have t: "x = Inr (?p, snd (report_termination ?rep (print PrintDurationPassed w5)))"
        by (simp add: main_until_terminate_eq Let_def)
      from m Inr have "monitor args ?p ?w4 = Some (Inr w5)" by simp
      from monitor_frame(1) [OF this] have "files (print PrintDurationPassed w5) = files ?w2" by simp
      from fin [OF this t] show ?thesis .
    qed
  qed
qed

lemma store_after_run_result:
  assumes "store_after_run args w = Some fs1"
  shows "\<exists>rep r. date rep = startup_day w \<and>
           report_df rep = stored_rows (report_path args w) (files w) \<and>
           fs1 = (files w)(report_path args w \<mapsto>
                        stored_rows (report_path args w) (files w) @ [r]) \<and>
           row_date r = startup_day w \<and>
           row_times_opened_today r = get_times_opened_today rep"
proof -
  from assms obtain x where su: "main_startup args w = Some x"
    by (cases "main_startup args w") (auto simp: store_after_run_def)
  from main_startup_result [OF su] obtain rep w5 where
    x: "x = Inr (Process_init (arg_process args), rep, w5)"
    and rep: "date rep = startup_day w" "report_file_name rep = report_path args w"
      "report_df rep = stored_rows (report_path args w) (files w)"
    and f5: "files w5 = (files w)(report_path args w \<mapsto> stored_rows (report_path args w) (files w))"
    by blast
  from assms su x obtain y where
    u: "main_until_terminate args (Process_init (arg_process args)) rep w5 = Some y"
    and fs1: "fs1 = (case y of Inl (e, fs) \<Rightarrow> fs | Inr (p, v) \<Rightarrow> files v)"
    by (auto simp: store_after_run_def split: option.splits sum.splits)
  from main_until_terminate_result [OF u] obtain r where
    "(case y of Inl (e, fs) \<Rightarrow> fs | Inr (p, v) \<Rightarrow> files v) =
       (files w5)(report_file_name rep \<mapsto> report_df rep @ [r])"
    "row_date r = date rep" "row_times_opened_today r = get_times_opened_today rep"
    by blast
  with rep f5 fs1 show ?thesis
    by (intro exI [of _ rep] exI [of _ r]) simp
qed

lemma store_after_run_main:
  assumes "main args w = Some r"
  shows "\<exists>fs1. store_after_run args w = Some fs1 \<and> (\<forall>w'. r = Inr w' \<longrightarrow> fs1 = files w')"
proof -
  from assms obtain x where su: "main_startup args w = Some x"
    by (cases "main_startup args w") (auto simp: main_def)
  from main_startup_result [OF su] obtain rep w5 where
    x: "x = Inr (Process_init (arg_process args), rep, w5)" by blast
  let ?p = "Process_init (arg_process args)"
  from assms su x have ms: "main_session args ?p rep w5 = Some r" by (simp add: main_def)
  then obtain y where u: "main_until_terminate args ?p rep w5 = Some y"
    by (cases "main_until_terminate args ?p rep w5") (auto simp: main_session_split)
  show ?thesis
  proof (cases y)
    case (Inl a)
    with ms u have "\<forall>w'. r \<noteq> Inr w'" by (auto simp: main_session_split split: prod.splits)
    with su x u Inl show ?thesis by (auto simp: store_after_run_def split: prod.splits)
  next
    case (Inr b)
    obtain p v where b: "b = (p, v)" by (cases b) auto
    with ms u Inr have t: "r = terminate args p v" by (simp add: main_session_split)
    have "\<forall>w'. r = Inr w' \<longrightarrow> files v = files w'"
      using terminate_frame(1) [of args p v] t by auto
    with su x u Inr b show ?thesis by (simp add: store_after_run_def)
  qed
qed

lemma runs_counts:
  "runs args ws fs = Some fs' \<Longrightarrow>
   \<forall>w \<in> set ws. startup_day w = d \<and> report_path args w = f \<Longrightarrow>
   map sint (day_counts d (stored_rows f fs)) = map int [1..<Suc k] \<Longrightarrow>
   int (k + length ws) < 9223372036854775808 \<Longrightarrow>
   map sint (day_counts d (stored_rows f fs')) = map int [1..<Suc (k + length ws)]"
proof (induction ws arbitrary: fs k)
  case Nil
  then show ?case by simp
next
  case (Cons w ws)
  let ?w = "w\<lparr>files := fs\<rparr>"
  from Cons.prems(1) obtain fs1 where m: "store_after_run args ?w = Some fs1"
    and rest: "runs args ws fs1 = Some fs'"
    by (auto split: option.splits)
  from Cons.prems(2) have d: "startup_day ?w = d" and f: "report_path args ?w = f" by simp_all
  from store_after_run_result [OF m] d f obtain rep r where rep: "date rep = d"
    "report_df rep = stored_rows f fs"
    and fw: "fs1 = fs(f \<mapsto> stored_rows f fs @ [r])"
    and r: "row_date r = d" "row_times_opened_today r = get_times_opened_today rep"
    by auto
  from Cons.prems(4) have k: "int k < 9223372036854775807" by simp
  from next_count [of rep k] rep Cons.prems(3) k have "sint (get_times_opened_today rep) = int k + 1"
    by simp
  with r fw Cons.prems(3) have "map sint (day_counts d (stored_rows f fs1)) = map int [1..<Suc (Suc k)]"
    by (simp add: day_counts_append)
  from Cons.IH [OF rest _ this] Cons.prems(2,4) show ?case by simp
qed


lemma monitor_loop_while:
  "end_time p = Some e \<Longrightarrow>
   monitor_loop args p i st cur v =
     (if st = On \<and> cur < e
      then (case monitor_body args p i cur v of
              Inl err \<Rightarrow> Some (Inl err)
            | Inr (st', cur', v') \<Rightarrow> monitor_loop args p i st' cur' v')
      else Some (Inr v))"
  by (subst monitor_loop.simps) (simp add: monitor_cond_Some)

lemma terminate_tick: "terminate args p w = Inr w' \<Longrightarrow> tick w' = Suc (tick w)"
  by (auto simp: terminate_eq Let_def split: if_splits)

lemma ex_ideal_world_bounded: "bounded_delays 0 ex_ideal_world"
  by (simp add: bounded_delays_def ex_ideal_world_def ex_world_def)

lemma monitor_no_zero_division:
  assumes "monotone_clock w" "start_time self = Some s" "of_int s \<le> clock w * 1000000"
  shows "monitor args self w \<noteq> Some (Inl ZeroDivisionError)"
proof (cases "duration self")
  case None
  then show ?thesis by (simp add: monitor_def)
next
  case (Some d)
  let ?w2 = "elapse (elapse w)"
  have c: "clock w \<le> clock ?w2" using assms(1) by (simp add: monotone_clock_def add_nonneg_nonneg)
  have "safe_start s self \<lfloor>clock ?w2 * 1000000\<rfloor> ?w2"
    unfolding safe_start_def
  proof (intro conjI)
    show "monotone_clock ?w2" using assms(1) by (simp add: monotone_clock_def)
    show "start_time self = Some s" by fact
    show "s \<le> \<lfloor>clock ?w2 * 1000000\<rfloor>" using floor_mono_scaled [OF assms(3) c] .
    show "of_int s \<le> clock ?w2 * 1000000" using assms(3) c
      by (meson mult_right_mono order_trans zero_le_numeral)
  qed
  with monitor_loop_no_zero_division show ?thesis
    unfolding monitor_eq [OF Some] by blast
qed

lemma terminate_error: "terminate args p w = Inl e \<Longrightarrow> e = OSError"
  by (auto simp: terminate_eq Let_def split: if_splits)

lemma main_session_no_zero_division:
  assumes "monotone_clock w"
  shows "main_session args p0 rep0 w \<noteq> Some (Inl ZeroDivisionError)"
proof
  assume a: "main_session args p0 rep0 w = Some (Inl ZeroDivisionError)"
  let ?t = "\<lfloor>clock (elapse w) * 1000000\<rfloor>" and ?D = "arg_duration args"
  let ?p = "p0\<lparr>duration := Some ?D, start_time := Some ?t, end_time := Some (add_timedelta ?t ?D)\<rparr>"
  let ?df = "report_df rep0 @
            [\<lparr>row_date = date rep0, row_start_time = time_of ?t,
              row_expected_end_time = time_of (add_timedelta ?t ?D), row_actual_end_time = Unknown,
              row_duration = Some ?D,
              row_times_opened_today = get_times_opened_today rep0\<rparr>]"
  let ?w2 = "to_csv (report_file_name rep0) ?df (elapse w)"
  let ?w4 = "print (PrintWillTerminate (total_seconds ?D / 60) (Some (add_timedelta ?t ?D)))
                      (print (PrintStartTime (Some ?t)) ?w2)"
  have "monotone_clock ?w4" using assms by (simp add: monotone_clock_def)
  moreover have "start_time ?p = Some ?t" by simp
  moreover have "of_int ?t \<le> clock ?w4 * 1000000" by simp
  ultimately have m: "monitor args ?p ?w4 \<noteq> Some (Inl ZeroDivisionError)"
    by (rule monitor_no_zero_division)
  from a show False
    unfolding main_session_eq Let_def using m
    by (auto split: if_splits option.splits sum.splits dest: terminate_error)
qed

lemma monitor_loop_exit_cause:
  assumes "monitor_loop args self i st cur w = Some r"
    and en: "end_time self = Some e"
  shows "monotone_clock w \<and> c \<le> clock w \<and> of_int cur \<le> clock w * 1000000 \<and>
         (st = Off \<longrightarrow> (\<exists>t. c \<le> t \<and> t \<le> clock w \<and> arg_process args \<notin> fst ` set (procs w t))) \<longrightarrow>
         (\<forall>w'. r = Inr w' \<longrightarrow>
            (\<exists>t. c \<le> t \<and> t \<le> clock w' \<and> arg_process args \<notin> fst ` set (procs w' t)) \<or>
            of_int e \<le> clock w' * 1000000)"
  using assms(1)
proof (induction rule: monitor_loop_induct)
  case (cond_error st cur w e')
  then show ?case by simp
next
  case (exit st cur w)
  show ?case
  proof (intro impI allI, elim conjE)
    fix w'
    assume cu: "of_int cur \<le> clock w * 1000000"
      and off: "st = Off \<longrightarrow> (\<exists>t. c \<le> t \<and> t \<le> clock w \<and> arg_process args \<notin> fst ` set (procs w t))"
      and r: "Inr w = (Inr w' :: error + world)"
    from r have w': "w' = w" by simp
    from exit have "st \<noteq> On \<or> e \<le> cur" by (auto simp: monitor_cond_Some [OF en])
    then show "(\<exists>t. c \<le> t \<and> t \<le> clock w' \<and> arg_process args \<notin> fst ` set (procs w' t)) \<or>
            of_int e \<le> clock w' * 1000000"
    proof
      assume "st \<noteq> On"
      then have "st = Off" by (cases st) auto
      with off w' show ?thesis by simp
    next
      assume "e \<le> cur"
      then have "(of_int e :: rat) \<le> of_int cur" by simp
      with cu w' show ?thesis by simp
    qed
  qed
next
  case (body_error st cur w e')
  then show ?case by simp
next
  case (step st cur w st' cur' w1 r)
  from monitor_bodyD [OF step(2)] obtain pct where i0: "0 \<le> i"
    and w1: "w1 = elapse (elapse (sleep_for i (print (PrintMonitoring pct) w)))"
    and cur': "cur' = \<lfloor>clock (elapse (sleep_for i (print (PrintMonitoring pct) w))) * 1000000\<rfloor>"
    and st': "st' = get_state_loop (arg_process args) (procs w (clock w1))"
    by blast
  show ?case
  proof (intro impI allI, elim conjE)
    fix w'
    assume mono: "monotone_clock w" and cw: "c \<le> clock w" and r: "r = Inr w'"
    let ?w2 = "elapse (sleep_for i (print (PrintMonitoring pct) w))"
    have d: "\<And>k. 0 \<le> delays w k" using mono by (simp add: monotone_clock_def)
    have m1: "monotone_clock w1" using mono by (simp add: monotone_clock_def w1)
    have c1: "clock w \<le> clock w1" using d i0 by (simp add: w1 add_nonneg_nonneg)
    have c2: "clock ?w2 \<le> clock w1" using d by (simp add: w1)
    have "of_int cur' \<le> clock ?w2 * 1000000" unfolding cur' by simp
    also have "\<dots> \<le> clock w1 * 1000000" using c2 by simp
    finally have p3: "of_int cur' \<le> clock w1 * 1000000" .
    have p4: "st' = Off \<longrightarrow> (\<exists>t. c \<le> t \<and> t \<le> clock w1 \<and> arg_process args \<notin> fst ` set (procs w1 t))"
    proof
      assume "st' = Off"
      then have "arg_process args \<notin> fst ` set (procs w (clock w1))"
        by (simp add: st' get_state_loop_Off)
      moreover have "procs w1 = procs w" by (simp add: w1)
      ultimately show "\<exists>t. c \<le> t \<and> t \<le> clock w1 \<and> arg_process args \<notin> fst ` set (procs w1 t)"
        using cw c1 by (intro exI [of _ "clock w1"]) simp
    qed
    from step(4) m1 cw c1 p3 p4 r
    show "(\<exists>t. c \<le> t \<and> t \<le> clock w' \<and> arg_process args \<notin> fst ` set (procs w' t)) \<or>
            of_int e \<le> clock w' * 1000000" by auto
  qed
qed

lemmas eval_defs = main_def main_startup_def main_session_def ex_args_def ex_world_def Report_init_def
      datetime_now_eq get_state_eq get_pid_eq get_report_file_name_def os_sep_def get_report_df_def path_exists_def
      create_new_report_csv_def read_csv_def Process_init_def print_def to_csv_def elapse_def
      prepare_to_monitor_def report_start_def report_termination_def get_times_opened_today_def
      date_of_def time_of_def add_timedelta_def get_last_index_def df_loc_set_def df_update_def
      monitor_def monitor_interval_def total_seconds_def monitor_loop.simps monitor_cond_def monitor_body_def
      get_duration_percentage_def py_round_def time_sleep_def sleep_for_def terminate_def os_kill_def
      stored_rows_def Let_def wait_until_started_def wait_loop.simps
      ex_ledger_def ex_over_world_def ex_over_args_def final_rows_def
      main_until_terminate_def store_after_run_def

lemma time_of_shift: "time_of (add_timedelta t d) = time_of t \<longleftrightarrow> 86400000000 dvd d div 1000"
proof -
  have "(t + d div 1000) mod 86400000000 = t mod 86400000000 \<longleftrightarrow>
        86400000000 dvd (t + d div 1000) - t"
    by (rule mod_eq_dvd_iff)
  then show ?thesis by (simp add: time_of_def add_timedelta_def)
qed

lemma ex_midnight_startup:
  "\<exists>rep w5. main_startup ex_args ex_midnight = Some (Inr (Process_init ''app'', rep, w5)) \<and>
     fst (datetime_now w5) = 86400600000"
  by (simp add: eval_defs ex_midnight_def)

lemma ex_midnight_run: "\<exists>w'. main ex_args ex_midnight = Some (Inr w')"
  by (simp add: eval_defs ex_midnight_def)

lemma ex_run_first:
  "store_after_run ex_args (ex_world\<lparr>files := ex_yesterday\<rparr>) =
     Some (ex_yesterday(''reports/app_report.csv'' \<mapsto>
       stored_rows ''reports/app_report.csv'' ex_yesterday @ [ex_row 1]))"
  by (simp add: eval_defs ex_yesterday_def ex_row_def)

lemma ex_run_second:
  "\<exists>fs'. store_after_run ex_args (ex_strict_world\<lparr>files := ex_yesterday(''reports/app_report.csv'' \<mapsto>
       stored_rows ''reports/app_report.csv'' ex_yesterday @ [ex_row 1])\<rparr>) = Some fs' \<and>
     stored_rows ''reports/app_report.csv'' fs' =
       stored_rows ''reports/app_report.csv'' ex_yesterday @ [ex_row 1, ex_row 2]"
  by (simp add: eval_defs ex_yesterday_def ex_row_def ex_strict_world_def ex_exit_world_def)

lemma ex_runs:
  "\<exists>fs'. runs ex_args [ex_world, ex_strict_world] ex_yesterday = Some fs' \<and>
     map row_times_opened_today (stored_rows ''reports/app_report.csv'' fs') = [7, 1, 2]"
proof -
  from ex_run_second obtain fs2 where
    2: "store_after_run ex_args (ex_strict_world\<lparr>files := ex_yesterday(''reports/app_report.csv'' \<mapsto>
       stored_rows ''reports/app_report.csv'' ex_yesterday @ [ex_row 1])\<rparr>) = Some fs2"
    and f2: "stored_rows ''reports/app_report.csv'' fs2 =
       stored_rows ''reports/app_report.csv'' ex_yesterday @ [ex_row 1, ex_row 2]"
    by (elim exE conjE)
  have "runs ex_args [ex_world, ex_strict_world] ex_yesterday = Some fs2"
    by (simp add: ex_run_first 2)
  moreover have "map row_times_opened_today (stored_rows ''reports/app_report.csv'' fs2) =
      [7, 1, 2]"
    unfolding f2 by (simp add: stored_rows_def ex_yesterday_def ex_row_def)
  ultimately show ?thesis by (intro exI [of _ fs2] conjI)
qed

lemma ex_over_startup:
  "\<exists>rep w5. main_startup ex_over_args ex_over_world = Some (Inr (Process_init ''app'', rep, w5)) \<and>
     times_opened rep = 2 \<and> fst (datetime_now w5) = 1001500000 \<and>
     fst (datetime_now (snd (datetime_now w5))) = 1002000000"
  by (simp add: eval_defs)

lemma ex_over_run: "\<exists>w'. main ex_over_args ex_over_world = Some (Inr w')"
  by (simp add: eval_defs)

lemma floor_later:
  fixes c d :: rat
  assumes "1 / 1000000 \<le> d"
  shows "\<lfloor>c * 1000000\<rfloor> < \<lfloor>(c + d) * 1000000\<rfloor>"
proof -
  from assms have "c * 1000000 + 1 \<le> (c + d) * 1000000" by (simp add: algebra_simps)
  then have "\<lfloor>c * 1000000 + 1\<rfloor> \<le> \<lfloor>(c + d) * 1000000\<rfloor>" by (rule floor_mono)
  then show ?thesis by simp
qed

lemma ex_full_run:
  "map (\<lambda>r. sint (row_times_opened_today r))
     (final_rows ''reports/app_report.csv'' (main ex_args (ex_world\<lparr>files := ex_full_store\<rparr>))) =
     [9223372036854775807, - 9223372036854775808]"
  by (simp add: eval_defs ex_full_store_def ex_row_def)

lemma ex_second_run_raises:
  "main ex_args (ex_strict_world\<lparr>files := ex_yesterday(''reports/app_report.csv'' \<mapsto>
       stored_rows ''reports/app_report.csv'' ex_yesterday @ [ex_row 1])\<rparr>) = Some (Inl OSError)"
  by (simp add: eval_defs ex_yesterday_def ex_row_def ex_strict_world_def ex_exit_world_def)

section \<open>The probes\<close>

text \<open>
  C7. A run has one \<^verbatim>\<open>Process\<close>, made at line 148 from \<^verbatim>\<open>args.process\<close>, and \<^verbatim>\<open>args\<close> is
  assigned once, at line 180: the name of the instance is the name the probes compare
  with. For such an instance and every process table, \<^verbatim>\<open>get_pid\<close> returns the pid of the
  first process of the table whose name is equal to the name of the instance, character
  by character, and \<open>- 1\<close> when there is none; \<^verbatim>\<open>get_state\<close> returns On when there is such
  a process and Off when there is none. Each probe reads the table once, and its result
  is a function of the name and of that table alone.
\<close>

theorem probe_first_match:
  assumes "name self = arg_process args"
  shows "get_pid args self w =
           (case find (\<lambda>q. fst q = name self) (fst (process_iter w)) of
              None \<Rightarrow> - 1 | Some q \<Rightarrow> snd q, snd (process_iter w))
       \<and> get_state args self w =
           (if name self \<in> fst ` set (fst (process_iter w)) then On else Off,
            snd (process_iter w))
       \<and> (main_startup args w0 = Some (Inr (p, rep, w5)) \<longrightarrow> name p = arg_process args)"
proof (intro conjI impI)
  show "get_pid args self w =
           (case find (\<lambda>q. fst q = name self) (fst (process_iter w)) of
              None \<Rightarrow> - 1 | Some q \<Rightarrow> snd q, snd (process_iter w))"
    using assms by (simp add: get_pid_def split_beta get_pid_loop_find)
  show "get_state args self w =
           (if name self \<in> fst ` set (fst (process_iter w)) then On else Off,
            snd (process_iter w))"
    using assms get_state_loop_On [of "arg_process args" "fst (process_iter w)"]
      get_state_loop_Off [of "arg_process args" "fst (process_iter w)"]
    by (simp add: get_state_def split_beta)
  assume "main_startup args w0 = Some (Inr (p, rep, w5))"
  from main_startup_result [OF this] show "name p = arg_process args"
    by (auto simp: Process_init_def)
qed

theorem probe_first_match_witness:
  "name (Process_init ''app'') = arg_process ex_args
   \<and> fst (get_pid ex_args (Process_init ''app'') ex_crowd) = 42
   \<and> fst (get_state ex_args (Process_init ''app'') ex_crowd) = On
   \<and> fst (get_pid ex_args (Process_init ''app'') ex_nobody) = - 1
   \<and> fst (get_state ex_args (Process_init ''app'') ex_nobody) = Off
   \<and> (\<exists>p rep w5. main_startup ex_args ex_world = Some (Inr (p, rep, w5))
        \<and> name p = arg_process ex_args)"
proof -
  have n: "name (Process_init ''app'') = arg_process ex_args"
    by (simp add: Process_init_def ex_args_def)
  have s: "\<exists>p rep w5. main_startup ex_args ex_world = Some (Inr (p, rep, w5))"
    by (simp add: eval_defs)
  then obtain p rep w5 where su: "main_startup ex_args ex_world = Some (Inr (p, rep, w5))"
    by (elim exE)
  from probe_first_match [OF n, of ex_crowd ex_world p rep w5]
       probe_first_match [OF n, of ex_nobody ex_world p rep w5] su n
  show ?thesis
    by (auto simp: process_iter_def Let_def elapse_def ex_crowd_def ex_nobody_def ex_world_def
        Process_init_def)
qed

section \<open>The polling interval\<close>

text \<open>
  C6, as the claim states it: the polling interval is clamped to a positive minimum and
  is never zero or negative. It fails for the duration \<^verbatim>\<open>0s\<close>, whose interval is zero.
\<close>

theorem interval_zero_counterexample: "\<not> 0 < monitor_interval 0"
  by (simp add: monitor_interval_def total_seconds_def)

text \<open>
  C6, amended: the polling interval is the duration in seconds divided by 100, with no
  clamp; it is positive, zero or negative exactly when the duration is.
\<close>

theorem interval_unclamped:
  "monitor_interval d = of_int d / 100000000000
   \<and> (0 < monitor_interval d \<longleftrightarrow> 0 < d)
   \<and> (monitor_interval d = 0 \<longleftrightarrow> d = 0)
   \<and> (monitor_interval d < 0 \<longleftrightarrow> d < 0)"
  by (simp add: monitor_interval_def total_seconds_def zero_less_divide_iff divide_less_0_iff)

section \<open>Monitoring and its end\<close>

text \<open>
  C3, as the claim states it: for a positive duration and a process that never exits on
  its own, Monitoring ends within the duration plus one polling interval of entering
  it. It fails on a host that takes half a second to answer the clock, the sleep and the
  process table: with two seconds allowed, a launch count within the limit and a process
  that is in the table at all times, the session spends 2.52 seconds in Monitoring; the
  duration plus one polling interval is 2.02 seconds.
\<close>

theorem monitoring_bound_counterexample:
  "monitoring_time ex_args (Process_init ''app'') ex_report ex_world = Some (63 / 25)
   \<and> total_seconds (arg_duration ex_args) + monitor_interval (arg_duration ex_args) = 101 / 50
   \<and> procs ex_world = (\<lambda>t. [(''init'', 1), (''app'', 42)])
   \<and> \<not> arg_max_times_opened ex_args < times_opened ex_report"
  by (simp add: monitoring_time_def eval_defs ex_report_def)

text \<open>
  C3, amended. After \<^verbatim>\<open>prepare_to_monitor\<close> and \<^verbatim>\<open>report_start\<close>, with a launch count within
  the limit and a clock whose primitives answer within \<open>b\<close> seconds:
  \<^verbatim>\<open>monitor\<close> is its loop, entered with the state and the clock reading taken just before,
  and the loop goes round exactly while the state is On and the clock reading is before
  \<^verbatim>\<open>end_time\<close>; \<^verbatim>\<open>monitor\<close> returns, having printed progress lines only; it returns at once
  when the first probe finds no process; it returns before the clock has reached
  \<^verbatim>\<open>end_time\<close> only if at some moment of Monitoring the process was not in the table, so
  for a process that never exits on its own not before \<^verbatim>\<open>end_time\<close>; for a positive
  duration it returns less than the duration plus one polling interval plus four times
  \<open>b\<close> after it was called, which is the duration plus one polling interval on a host
  that answers at once; whatever ended the loop, the run then closes the session with
  the clock reading of that moment and calls \<^verbatim>\<open>terminate\<close>; a run that returns has asked
  for exactly one kill.
\<close>

theorem monitoring_exit:
  assumes bd: "bounded_delays b w"
    and pr: "prepare_to_monitor p0 (arg_duration args) w = (p, w1)"
    and rs: "report_start rep0 p w1 = Inr (rep, w2)"
    and lim: "\<not> arg_max_times_opened args < times_opened rep0"
    and w4: "w4 = print (PrintWillTerminate (total_seconds (arg_duration args) / 60) (end_time p))
                    (print (PrintStartTime (start_time p)) w2)"
  shows "\<exists>e w5 pcts.
      end_time p = Some e
    \<and> monitor args p w4 =
        monitor_loop args p (monitor_interval (arg_duration args))
          (fst (get_state args p w4)) (fst (datetime_now (snd (get_state args p w4))))
          (snd (datetime_now (snd (get_state args p w4))))
    \<and> (\<forall>i st cur v. monitor_loop args p i st cur v =
          (if st = On \<and> cur < e
           then (case monitor_body args p i cur v of
                   Inl err \<Rightarrow> Some (Inl err)
                 | Inr (st', cur', v') \<Rightarrow> monitor_loop args p i st' cur' v')
           else Some (Inr v)))
    \<and> monitor args p w4 = Some (Inr w5)
    \<and> out w5 = out w4 @ map PrintMonitoring pcts
    \<and> (fst (get_state args p w4) = Off \<longrightarrow> w5 = snd (datetime_now (snd (get_state args p w4))))
    \<and> (clock w5 * 1000000 < of_int e \<longrightarrow>
         (\<exists>t. clock w4 \<le> t \<and> t \<le> clock w5 \<and> arg_process args \<notin> fst ` set (procs w t)))
    \<and> ((\<forall>t. arg_process args \<in> fst ` set (procs w t)) \<longrightarrow> of_int e \<le> clock w5 * 1000000)
    \<and> (0 < arg_duration args \<longrightarrow>
         clock w5 - clock w4 <
           total_seconds (arg_duration args) + monitor_interval (arg_duration args) + 4 * b)
    \<and> monitoring_time args p0 rep0 w = Some (clock w5 - clock w4)
    \<and> main_session args p0 rep0 w =
         Some (terminate args p (snd (report_termination rep (print PrintDurationPassed w5))))
    \<and> row_actual_end_time
         (last (report_df (fst (report_termination rep (print PrintDurationPassed w5))))) =
         EndTime (time_of (fst (datetime_now (print PrintDurationPassed w5))))
    \<and> (\<forall>w'. main_session args p0 rep0 w = Some (Inr w') \<longrightarrow>
          length (filter is_kill (out w')) = length (filter is_kill (out w)) + 1)"
proof -
  let ?D = "arg_duration args"
  let ?t = "\<lfloor>clock (elapse w) * 1000000\<rfloor>"
  let ?e = "add_timedelta ?t ?D"
  from pr have p: "p = p0\<lparr>duration := Some ?D, start_time := Some ?t, end_time := Some ?e\<rparr>"
    and w1: "w1 = elapse w" by (auto simp only: prepare_to_monitor_eq prod.inject)
  then have pf: "start_time p = Some ?t" "duration p = Some ?D" "end_time p = Some ?e"
    by simp_all
  let ?r = "\<lparr>row_date = date rep0, row_start_time = time_of ?t,
              row_expected_end_time = time_of ?e, row_actual_end_time = Unknown,
              row_duration = Some ?D,
              row_times_opened_today = get_times_opened_today rep0\<rparr>"
  from rs pf have rep: "rep = rep0\<lparr>report_df := report_df rep0 @ [?r]\<rparr>"
    and w2: "w2 = to_csv (report_file_name rep0) (report_df rep0 @ [?r]) w1"
    by (simp_all add: report_start_eq Let_def)
  have bd4: "bounded_delays b w4" using bd by (simp add: w4 w2 w1 bounded_delays_def)
  have cl4: "of_int ?t \<le> clock w4 * 1000000" by (simp add: w4 w2 w1)
  have pw4: "procs w4 = procs w" by (simp add: w4 w2 w1)
  from monitor_total [OF bd4 pf(1) pf(2) pf(3) cl4, of args] obtain w5 where
    m: "monitor args p w4 = Some (Inr w5)"
    and bound: "0 < ?D \<longrightarrow> clock w5 - clock w4 < total_seconds ?D + monitor_interval ?D + 4 * b"
    by blast
  let ?st = "get_state_loop (arg_process args) (procs w4 (clock (elapse w4)))"
  let ?w0 = "elapse (elapse w4)"
  let ?cur = "\<lfloor>clock ?w0 * 1000000\<rfloor>"
  have tie: "monitor args p w4 =
        monitor_loop args p (monitor_interval ?D)
          (fst (get_state args p w4)) (fst (datetime_now (snd (get_state args p w4))))
          (snd (datetime_now (snd (get_state args p w4))))"
    by (simp add: monitor_eq [OF pf(2)] get_state_eq datetime_now_eq)
  have loop: "monitor_loop args p (monitor_interval ?D) ?st ?cur ?w0 = Some (Inr w5)"
    using m by (simp only: monitor_eq [OF pf(2)])
  from monitor_frame(3) [OF m] obtain pcts where o5: "out w5 = out w4 @ map PrintMonitoring pcts" ..
  from monitor_frame(2) [OF m] have pw5: "procs w5 = procs w" by (simp add: same_env_def pw4)
  have off: "fst (get_state args p w4) = Off \<longrightarrow> w5 = snd (datetime_now (snd (get_state args p w4)))"
  proof
    assume "fst (get_state args p w4) = Off"
    then have "?st = Off" by (simp add: get_state_eq)
    then have "monitor_cond p ?st ?cur = Inr False" by (simp add: monitor_cond_def)
    from monitor_loop_exit [OF this, of args "monitor_interval ?D" ?w0] loop
    show "w5 = snd (datetime_now (snd (get_state args p w4)))"
      by (simp add: get_state_eq datetime_now_eq)
  qed
  note d = bounded_delaysD [OF bd4]
  have mono0: "monotone_clock ?w0" using bd4 by (simp add: bounded_delays_def monotone_clock_def)
  have c01: "clock w4 \<le> clock (elapse w4)" using d(1) [of "tick w4"] by simp
  have c0: "clock w4 \<le> clock ?w0" using d(1) [of "tick w4"] d(1) [of "Suc (tick w4)"] by simp
  have c12: "clock (elapse w4) \<le> clock ?w0" using d(1) [of "Suc (tick w4)"] by simp
  have cur0: "of_int ?cur \<le> clock ?w0 * 1000000" by simp
  have st0: "?st = Off \<longrightarrow>
      (\<exists>t. clock w4 \<le> t \<and> t \<le> clock ?w0 \<and> arg_process args \<notin> fst ` set (procs ?w0 t))"
  proof
    assume "?st = Off"
    then have "arg_process args \<notin> fst ` set (procs ?w0 (clock (elapse w4)))"
      by (simp add: get_state_loop_Off)
    with c01 c12 show "\<exists>t. clock w4 \<le> t \<and> t \<le> clock ?w0 \<and>
        arg_process args \<notin> fst ` set (procs ?w0 t)" by blast
  qed
  from monitor_loop_exit_cause [OF loop pf(3), of "clock w4"] mono0 c0 cur0 st0
  have cause: "(\<exists>t. clock w4 \<le> t \<and> t \<le> clock w5 \<and> arg_process args \<notin> fst ` set (procs w5 t)) \<or>
            of_int ?e \<le> clock w5 * 1000000" by blast
  have early: "clock w5 * 1000000 < of_int ?e \<longrightarrow>
         (\<exists>t. clock w4 \<le> t \<and> t \<le> clock w5 \<and> arg_process args \<notin> fst ` set (procs w t))"
    using cause by (auto simp: pw5)
  have late: "(\<forall>t. arg_process args \<in> fst ` set (procs w t)) \<longrightarrow> of_int ?e \<le> clock w5 * 1000000"
    using cause by (auto simp: pw5)
  have mt: "monitoring_time args p0 rep0 w = Some (clock w5 - clock w4)"
    using m by (simp add: monitoring_time_def pr rs w4 [symmetric])
  have ms: "main_session args p0 rep0 w =
         Some (terminate args p (snd (report_termination rep (print PrintDurationPassed w5))))"
  proof -
    have "times_opened rep = times_opened rep0" by (simp add: rep)
    with lim m show ?thesis
      by (simp add: main_session_def pr rs pf(2) w4 [symmetric] split_beta)
  qed
  have cl: "row_actual_end_time
         (last (report_df (fst (report_termination rep (print PrintDurationPassed w5))))) =
         EndTime (time_of (fst (datetime_now (print PrintDurationPassed w5))))"
    using df_update_last [of "report_df rep0" ?r]
    by (simp add: report_termination_eq Let_def rep datetime_now_eq)
  have k: "\<forall>w'. main_session args p0 rep0 w = Some (Inr w') \<longrightarrow>
          length (filter is_kill (out w')) = length (filter is_kill (out w)) + 1"
    using main_session_result by blast
  have wh: "\<forall>i st cur v. monitor_loop args p i st cur v =
          (if st = On \<and> cur < ?e
           then (case monitor_body args p i cur v of
                   Inl err \<Rightarrow> Some (Inl err)
                 | Inr (st', cur', v') \<Rightarrow> monitor_loop args p i st' cur' v')
           else Some (Inr v))"
    using monitor_loop_while [OF pf(3)] by blast
  show ?thesis
    by (intro exI [of _ ?e] exI [of _ w5] exI [of _ pcts] conjI)
      (rule pf(3) tie wh m o5 off early late bound mt ms cl k)+
qed


theorem monitoring_exit_witness:
  "bounded_delays 0 ex_ideal_world
   \<and> \<not> arg_max_times_opened ex_args < times_opened ex_report
   \<and> 0 < arg_duration ex_args
   \<and> (\<exists>p w1 rep w2 e w5.
        prepare_to_monitor (Process_init ''app'') (arg_duration ex_args) ex_ideal_world = (p, w1)
      \<and> report_start ex_report p w1 = Inr (rep, w2)
      \<and> end_time p = Some e
      \<and> monitor ex_args p
            (print (PrintWillTerminate (total_seconds (arg_duration ex_args) / 60) (end_time p))
               (print (PrintStartTime (start_time p)) w2)) = Some (Inr w5)
      \<and> of_int e \<le> clock w5 * 1000000
      \<and> clock w5 - clock w2 < 2 + 1 / 50
      \<and> main_session ex_args (Process_init ''app'') ex_report ex_ideal_world =
           Some (terminate ex_args p
             (snd (report_termination rep (print PrintDurationPassed w5)))))"
proof -
  obtain p w1 where pr:
    "prepare_to_monitor (Process_init ''app'') (arg_duration ex_args) ex_ideal_world = (p, w1)"
    by fastforce
  then have "start_time p \<noteq> None" "end_time p \<noteq> None"
    by (auto simp: prepare_to_monitor_eq)
  then obtain rep w2 where rs: "report_start ex_report p w1 = Inr (rep, w2)"
    by (auto simp: report_start_eq Let_def)
  have lim: "\<not> arg_max_times_opened ex_args < times_opened ex_report"
    by (simp add: ex_args_def ex_report_def)
  have D: "0 < arg_duration ex_args" by (simp add: ex_args_def)
  have alive: "\<forall>t. arg_process ex_args \<in> fst ` set (procs ex_ideal_world t)"
    by (simp add: ex_args_def ex_ideal_world_def ex_world_def)
  from monitoring_exit [OF ex_ideal_world_bounded pr rs lim refl] D alive obtain e w5 where
    "end_time p = Some e"
    "monitor ex_args p
            (print (PrintWillTerminate (total_seconds (arg_duration ex_args) / 60) (end_time p))
               (print (PrintStartTime (start_time p)) w2)) = Some (Inr w5)"
    "of_int e \<le> clock w5 * 1000000"
    "clock w5 - clock w2 < total_seconds (arg_duration ex_args) +
        monitor_interval (arg_duration ex_args) + 4 * 0"
    "main_session ex_args (Process_init ''app'') ex_report ex_ideal_world =
           Some (terminate ex_args p
             (snd (report_termination rep (print PrintDurationPassed w5))))"
    by auto
  moreover have "total_seconds (arg_duration ex_args) = 2"
    "monitor_interval (arg_duration ex_args) = 1 / 50"
    by (simp_all add: ex_args_def total_seconds_def monitor_interval_def)
  ultimately show ?thesis using ex_ideal_world_bounded lim D pr rs by auto
qed

section \<open>The division in the percentage\<close>

text \<open>
  C10. \<^verbatim>\<open>get_duration_percentage\<close> divides by \<^verbatim>\<open>end_time - start_time\<close> with no guard, and
  raises ZeroDivisionError when the two are equal. From \<^verbatim>\<open>monitor\<close> this cannot happen:
  when the clock never runs backwards and \<^verbatim>\<open>start_time\<close> was read from it before the
  call, no call of \<^verbatim>\<open>monitor\<close>, whatever the duration and \<^verbatim>\<open>end_time\<close>, and no run of
  \<^verbatim>\<open>main\<close> ends in ZeroDivisionError.
\<close>

theorem percentage_division_safe:
  "get_duration_percentage (Some s) (Some s) c = Inl ZeroDivisionError
   \<and> (monotone_clock w \<and> start_time self = Some s' \<and> of_int s' \<le> clock w * 1000000 \<longrightarrow>
        monitor args self w \<noteq> Some (Inl ZeroDivisionError))
   \<and> (monotone_clock w0 \<longrightarrow> main args w0 \<noteq> Some (Inl ZeroDivisionError))"
proof (intro conjI impI)
  show "get_duration_percentage (Some s) (Some s) c = Inl ZeroDivisionError"
    by (simp add: get_duration_percentage_def)
  show "monitor args self w \<noteq> Some (Inl ZeroDivisionError)"
    if "monotone_clock w \<and> start_time self = Some s' \<and> of_int s' \<le> clock w * 1000000"
    using that monitor_no_zero_division by blast
  show "main args w0 \<noteq> Some (Inl ZeroDivisionError)" if m: "monotone_clock w0"
  proof
    assume a: "main args w0 = Some (Inl ZeroDivisionError)"
    then obtain x where su: "main_startup args w0 = Some x"
      by (cases "main_startup args w0") (auto simp: main_def)
    from main_startup_result [OF su] obtain rep w5 where
      x: "x = Inr (Process_init (arg_process args), rep, w5)" and e: "same_env w0 w5" by blast
    from e m have "monotone_clock w5" by (simp add: same_env_def monotone_clock_def)
    from main_session_no_zero_division [OF this] a su x show False by (simp add: main_def)
  qed
qed

theorem percentage_division_safe_witness:
  "monotone_clock ex_world
   \<and> start_time (fst (prepare_to_monitor (Process_init ''app'') 0 ex_world)) = Some 1000500000
   \<and> end_time (fst (prepare_to_monitor (Process_init ''app'') 0 ex_world)) = Some 1000500000
   \<and> of_int 1000500000 \<le>
        clock (snd (prepare_to_monitor (Process_init ''app'') 0 ex_world)) * 1000000
   \<and> get_duration_percentage (Some 1000500000) (Some 1000500000) 1000500000 =
        Inl ZeroDivisionError
   \<and> monitor ex_args (fst (prepare_to_monitor (Process_init ''app'') 0 ex_world))
        (snd (prepare_to_monitor (Process_init ''app'') 0 ex_world)) \<noteq>
        Some (Inl ZeroDivisionError)
   \<and> main ex_args ex_world \<noteq> Some (Inl ZeroDivisionError)"
proof -
  have m: "monotone_clock ex_world" by (simp add: monotone_clock_def ex_world_def)
  let ?p = "fst (prepare_to_monitor (Process_init ''app'') 0 ex_world)"
  let ?w = "snd (prepare_to_monitor (Process_init ''app'') 0 ex_world)"
  have p: "start_time ?p = Some 1000500000" "end_time ?p = Some 1000500000"
    by (simp_all add: prepare_to_monitor_eq ex_world_def add_timedelta_def)
  have mw: "monotone_clock ?w" by (simp add: prepare_to_monitor_eq monotone_clock_def ex_world_def)
  have c: "of_int 1000500000 \<le> clock ?w * 1000000"
    by (simp add: prepare_to_monitor_eq ex_world_def)
  from percentage_division_safe [where s = 1000500000 and c = 1000500000 and w = ?w
      and self = ?p and s' = 1000500000 and args = ex_args and ?w0.0 = ex_world] m mw p c
  show ?thesis by simp
qed

section \<open>The launch limit\<close>

text \<open>
  C4. When the launch count exceeds \<^verbatim>\<open>max_times_opened\<close>, the run takes the fast path: the
  session is appended with an unknown end, the notice is printed, the session is closed
  with the clock reading of that moment, and \<^verbatim>\<open>terminate\<close> is called in the same run. Between
  the start of the window and the kill the clock and the process table are looked at
  twice (the start and the closing time), so \<^verbatim>\<open>monitor\<close> is never entered, and a run that
  returns has printed no progress line and asked for one kill.
\<close>

theorem over_limit_fast_path:
  assumes pr: "prepare_to_monitor p0 (arg_duration args) w = (p, w1)"
    and rs: "report_start rep0 p w1 = Inr (rep, w2)"
    and lim: "arg_max_times_opened args < times_opened rep0"
    and w3: "w3 = print (PrintTooMany (times_opened rep0) (arg_max_times_opened args)) w2"
  shows "\<exists>r. report_df rep = report_df rep0 @ [r] \<and> row_actual_end_time r = Unknown
    \<and> main_session args p0 rep0 w = Some (terminate args p (snd (report_termination rep w3)))
    \<and> out (snd (report_termination rep w3)) =
         out w @ [ToCsv (report_file_name rep0) (report_df rep0 @ [r]),
                  PrintTooMany (times_opened rep0) (arg_max_times_opened args),
                  ToCsv (report_file_name rep0)
                    (report_df rep0 @
                      [r\<lparr>row_actual_end_time := EndTime (time_of (fst (datetime_now w3)))\<rparr>])]
    \<and> tick (snd (report_termination rep w3)) = tick w + 2
    \<and> (\<forall>w'. main_session args p0 rep0 w = Some (Inr w') \<longrightarrow>
          filter is_progress (out w') = filter is_progress (out w) \<and>
          tick w' = tick w + 3 \<and>
          length (filter is_kill (out w')) = length (filter is_kill (out w)) + 1)"
proof -
  let ?D = "arg_duration args"
  let ?t = "\<lfloor>clock (elapse w) * 1000000\<rfloor>"
  let ?e = "add_timedelta ?t ?D"
  from pr have p: "p = p0\<lparr>duration := Some ?D, start_time := Some ?t, end_time := Some ?e\<rparr>"
    and w1: "w1 = elapse w" by (auto simp only: prepare_to_monitor_eq prod.inject)
  then have pf: "start_time p = Some ?t" "duration p = Some ?D" "end_time p = Some ?e"
    by simp_all
  let ?r = "\<lparr>row_date = date rep0, row_start_time = time_of ?t,
              row_expected_end_time = time_of ?e, row_actual_end_time = Unknown,
              row_duration = Some ?D,
              row_times_opened_today = get_times_opened_today rep0\<rparr>"
  let ?f = "report_file_name rep0"
  from rs pf have rep: "rep = rep0\<lparr>report_df := report_df rep0 @ [?r]\<rparr>"
    and w2: "w2 = to_csv ?f (report_df rep0 @ [?r]) w1"
    by (simp_all add: report_start_eq Let_def)
  let ?w4 = "snd (report_termination rep w3)"
  have w4: "?w4 = to_csv ?f
       (report_df rep0 @ [?r\<lparr>row_actual_end_time := EndTime (time_of \<lfloor>clock (elapse w3) * 1000000\<rfloor>)\<rparr>])
       (elapse w3)"
    using report_termination_appended [of rep "report_df rep0" ?r w3] by (simp add: rep)
  have ms: "main_session args p0 rep0 w = Some (terminate args p ?w4)"
  proof -
    have "times_opened rep = times_opened rep0" by (simp add: rep)
    with lim show ?thesis
      by (simp add: main_session_def pr rs w3 [symmetric] split_beta)
  qed
  have o4: "out ?w4 = out w @ [ToCsv ?f (report_df rep0 @ [?r]),
                  PrintTooMany (times_opened rep0) (arg_max_times_opened args),
                  ToCsv ?f (report_df rep0 @
                      [?r\<lparr>row_actual_end_time := EndTime (time_of (fst (datetime_now w3)))\<rparr>])]"
    by (subst w4) (simp add: w3 w2 w1 datetime_now_eq)
  have t4: "tick ?w4 = tick w + 2" by (subst w4) (simp add: w3 w2 w1)
  have fin: "\<forall>w'. main_session args p0 rep0 w = Some (Inr w') \<longrightarrow>
          filter is_progress (out w') = filter is_progress (out w) \<and>
          tick w' = tick w + 3 \<and>
          length (filter is_kill (out w')) = length (filter is_kill (out w)) + 1"
  proof (intro allI impI)
    fix w' assume "main_session args p0 rep0 w = Some (Inr w')"
    with ms have t: "terminate args p ?w4 = Inr w'" by simp
    from terminate_frame(3,4) [OF t] terminate_tick [OF t] o4 t4
    show "filter is_progress (out w') = filter is_progress (out w) \<and>
          tick w' = tick w + 3 \<and>
          length (filter is_kill (out w')) = length (filter is_kill (out w)) + 1"
      by simp
  qed
  show ?thesis
  proof (intro exI [of _ ?r] conjI)
    show "report_df rep = report_df rep0 @ [?r]" by (simp add: rep)
    show "row_actual_end_time ?r = Unknown" by simp
  qed (rule ms o4 t4 fin)+
qed

theorem over_limit_fast_path_witness:
  "arg_max_times_opened ex_over_args < times_opened (ex_report\<lparr>times_opened := 2\<rparr>)
   \<and> (\<exists>p w1 rep w2 w'.
        prepare_to_monitor (Process_init ''app'') (arg_duration ex_over_args) ex_world = (p, w1)
      \<and> report_start (ex_report\<lparr>times_opened := 2\<rparr>) p w1 = Inr (rep, w2)
      \<and> main_session ex_over_args (Process_init ''app'') (ex_report\<lparr>times_opened := 2\<rparr>) ex_world =
           Some (Inr w')
      \<and> filter is_progress (out w') = filter is_progress (out ex_world)
      \<and> tick w' = tick ex_world + 3
      \<and> length (filter is_kill (out w')) = length (filter is_kill (out ex_world)) + 1)"
proof -
  let ?rep0 = "ex_report\<lparr>times_opened := 2\<rparr>"
  obtain p w1 where pr:
    "prepare_to_monitor (Process_init ''app'') (arg_duration ex_over_args) ex_world = (p, w1)"
    by fastforce
  then have "start_time p \<noteq> None" "end_time p \<noteq> None"
    by (auto simp: prepare_to_monitor_eq)
  then obtain rep w2 where rs: "report_start ?rep0 p w1 = Inr (rep, w2)"
    by (auto simp: report_start_eq Let_def)
  have lim: "arg_max_times_opened ex_over_args < times_opened ?rep0"
    by (simp add: ex_over_args_def ex_args_def)
  let ?w3 = "print (PrintTooMany (times_opened ?rep0) (arg_max_times_opened ex_over_args)) w2"
  have "platform (snd (report_termination rep ?w3)) = Posix"
    "\<not> kill_fails (snd (report_termination rep ?w3)) pid" for pid
    using pr rs by (auto simp: report_termination_eq prepare_to_monitor_eq report_start_eq
        Let_def ex_world_def)
  then obtain w' where t: "terminate ex_over_args p (snd (report_termination rep ?w3)) = Inr w'"
    by (simp add: terminate_eq Let_def)
  from over_limit_fast_path [OF pr rs lim refl] t lim pr rs show ?thesis by auto
qed

text \<open>
  C5, as the claim states it: on the (K+1)th launch of a day with \<^verbatim>\<open>max_times_opened\<close> = K
  the record has its start and end times recorded as the same instant. On the second
  launch of a day with one launch allowed and two seconds of duration, the record has
  start 1001.5 s, expected end 1003.5 s and actual end 1002 s after midnight.
\<close>

theorem over_limit_record_counterexample:
  "map row_times_opened_today
     (final_rows ''reports/app_report.csv'' (main ex_over_args ex_over_world)) = [1, 2]
   \<and> arg_max_times_opened ex_over_args = 1
   \<and> row_start_time (last (final_rows ''reports/app_report.csv''
         (main ex_over_args ex_over_world))) = 1001500000
   \<and> row_expected_end_time (last (final_rows ''reports/app_report.csv''
         (main ex_over_args ex_over_world))) = 1003500000
   \<and> row_actual_end_time (last (final_rows ''reports/app_report.csv''
         (main ex_over_args ex_over_world))) = EndTime 1002000000
   \<and> row_start_time (last (final_rows ''reports/app_report.csv''
         (main ex_over_args ex_over_world))) \<noteq>
       row_expected_end_time (last (final_rows ''reports/app_report.csv''
         (main ex_over_args ex_over_world)))"
proof -
  have "final_rows ''reports/app_report.csv'' (main ex_over_args ex_over_world) =
    ex_ledger @ [\<lparr>row_date = 0, row_start_time = 1001500000,
            row_expected_end_time = 1003500000,
            row_actual_end_time = EndTime 1002000000,
            row_duration = Some 2000000000, row_times_opened_today = 2\<rparr>]"
    by (simp add: eval_defs)
  then show ?thesis by (simp add: ex_ledger_def ex_over_args_def)
qed

text \<open>
  C5, amended: in a run that returns after a launch over the limit, the record written
  carries the launch count; its \<^verbatim>\<open>start_time\<close> is the time of day of the clock reading of
  \<^verbatim>\<open>prepare_to_monitor\<close>; its \<^verbatim>\<open>expected_end_time\<close> is the time of day of that reading plus
  the duration cut to whole microseconds, the same time of day exactly when the duration
  so cut is a whole number of days (a duration below one microsecond among them); its
  \<^verbatim>\<open>actual_end_time\<close> is the time of day of the next reading of the clock, the one of
  \<^verbatim>\<open>report_termination\<close>, which is not before the first and is after it when the host
  takes a microsecond or more to answer; no progress line is printed.
\<close>

theorem over_limit_record:
  assumes mono: "monotone_clock w"
    and su: "main_startup args w = Some (Inr (p0, rep0, w5))"
    and lim: "arg_max_times_opened args < times_opened rep0"
    and run: "main args w = Some (Inr w')"
  shows "\<exists>r. stored_rows (report_path args w) (files w') =
           stored_rows (report_path args w) (files w) @ [r]
    \<and> sint (row_times_opened_today r) = times_opened rep0
    \<and> row_start_time r = time_of (fst (datetime_now w5))
    \<and> row_expected_end_time r =
        time_of (add_timedelta (fst (datetime_now w5)) (arg_duration args))
    \<and> (row_expected_end_time r = row_start_time r \<longleftrightarrow>
        86400000000 dvd arg_duration args div 1000)
    \<and> row_actual_end_time r = EndTime (time_of (fst (datetime_now (snd (datetime_now w5)))))
    \<and> fst (datetime_now w5) \<le> fst (datetime_now (snd (datetime_now w5)))
    \<and> (1 / 1000000 \<le> delays w5 (Suc (tick w5)) \<longrightarrow>
         fst (datetime_now w5) < fst (datetime_now (snd (datetime_now w5))))
    \<and> filter is_progress (out w') = filter is_progress (out w5)"
proof -
  from main_startup_result [OF su] have
    rep: "report_file_name rep0 = report_path args w"
      "report_df rep0 = stored_rows (report_path args w) (files w)"
      "times_opened rep0 = sint (get_times_opened_today rep0)"
    and e5: "same_env w w5" by auto
  from mono e5 have mono5: "monotone_clock w5" by (simp add: monotone_clock_def same_env_def)
  from run su have ms: "main_session args p0 rep0 w5 = Some (Inr w')" by (simp add: main_def)
  let ?t = "\<lfloor>clock (elapse w5) * 1000000\<rfloor>" and ?D = "arg_duration args"
  let ?p = "p0\<lparr>duration := Some ?D, start_time := Some ?t, end_time := Some (add_timedelta ?t ?D)\<rparr>"
  let ?r = "\<lparr>row_date = date rep0, row_start_time = time_of ?t,
              row_expected_end_time = time_of (add_timedelta ?t ?D), row_actual_end_time = Unknown,
              row_duration = Some ?D,
              row_times_opened_today = get_times_opened_today rep0\<rparr>"
  let ?f = "report_file_name rep0"
  let ?rep = "rep0\<lparr>report_df := report_df rep0 @ [?r]\<rparr>"
  let ?w3 = "print (PrintTooMany (times_opened rep0) (arg_max_times_opened args))
               (to_csv ?f (report_df rep0 @ [?r]) (elapse w5))"
  let ?tc = "\<lfloor>clock (elapse ?w3) * 1000000\<rfloor>"
  let ?r' = "?r\<lparr>row_actual_end_time := EndTime (time_of ?tc)\<rparr>"
  let ?w4 = "to_csv ?f (report_df rep0 @ [?r']) (elapse ?w3)"
  have "snd (report_termination ?rep ?w3) = ?w4"
    using report_termination_appended [of ?rep "report_df rep0" ?r ?w3] by simp
  with ms lim have t: "terminate args ?p ?w4 = Inr w'"
    by (simp add: main_session_eq Let_def)
  note fr = terminate_frame [OF t]
  have tc: "fst (datetime_now (snd (datetime_now w5))) = ?tc" by (simp add: datetime_now_eq)
  have 1: "stored_rows (report_path args w) (files w') =
           stored_rows (report_path args w) (files w) @ [?r']"
    using fr(1) rep(1,2) by simp
  have 2: "filter is_progress (out w') = filter is_progress (out w5)" using fr(4) by simp
  have "clock (elapse w5) \<le> clock (elapse ?w3)" using mono5 by (simp add: monotone_clock_def)
  then have "?t \<le> ?tc" by (intro floor_mono) simp
  then have 3: "fst (datetime_now w5) \<le> fst (datetime_now (snd (datetime_now w5)))"
    by (simp add: datetime_now_eq)
  have 4: "1 / 1000000 \<le> delays w5 (Suc (tick w5)) \<longrightarrow>
         fst (datetime_now w5) < fst (datetime_now (snd (datetime_now w5)))"
  proof
    assume "1 / 1000000 \<le> delays w5 (Suc (tick w5))"
    from floor_later [OF this, of "clock (elapse w5)"]
    show "fst (datetime_now w5) < fst (datetime_now (snd (datetime_now w5)))"
      by (simp add: datetime_now_eq)
  qed
  have 5: "(row_expected_end_time ?r' = row_start_time ?r') = (86400000000 dvd ?D div 1000)"
    using time_of_shift [of ?t ?D] by simp
  have 6: "sint (row_times_opened_today ?r') = times_opened rep0" by (simp add: rep(3))
  have 7: "row_start_time ?r' = time_of (fst (datetime_now w5))" by (simp add: datetime_now_eq)
  have 8: "row_expected_end_time ?r' =
        time_of (add_timedelta (fst (datetime_now w5)) (arg_duration args))"
    by (simp add: datetime_now_eq)
  have 9: "row_actual_end_time ?r' = EndTime (time_of (fst (datetime_now (snd (datetime_now w5)))))"
    by (simp add: datetime_now_eq)
  show ?thesis
    by (intro exI [of _ ?r'] conjI) (rule 1 2 3 4 5 6 7 8 9)+
qed

theorem over_limit_record_witness:
  "monotone_clock ex_over_world
   \<and> arg_max_times_opened ex_over_args = 1
   \<and> (\<exists>p0 rep0 w5 w' r.
        main_startup ex_over_args ex_over_world = Some (Inr (p0, rep0, w5))
      \<and> arg_max_times_opened ex_over_args < times_opened rep0
      \<and> main ex_over_args ex_over_world = Some (Inr w')
      \<and> stored_rows ''reports/app_report.csv'' (files w') = ex_ledger @ [r]
      \<and> sint (row_times_opened_today r) = 2
      \<and> row_start_time r = 1001500000
      \<and> row_expected_end_time r = 1003500000
      \<and> row_actual_end_time r = EndTime 1002000000)"
proof -
  have m: "monotone_clock ex_over_world"
    by (simp add: monotone_clock_def ex_over_world_def ex_world_def)
  have k: "arg_max_times_opened ex_over_args = 1" by (simp add: ex_over_args_def ex_args_def)
  from ex_over_startup obtain rep w5 where
    su: "main_startup ex_over_args ex_over_world = Some (Inr (Process_init ''app'', rep, w5))"
    and c: "times_opened rep = 2" and t: "fst (datetime_now w5) = 1001500000"
    and tc: "fst (datetime_now (snd (datetime_now w5))) = 1002000000"
    by (elim exE conjE)
  from ex_over_run obtain w' where run: "main ex_over_args ex_over_world = Some (Inr w')" ..
  have lim: "arg_max_times_opened ex_over_args < times_opened rep" by (simp add: k c)
  have f: "report_path ex_over_args ex_over_world = ''reports/app_report.csv''"
    by (simp add: report_path_def get_report_file_name_def os_sep_def ex_over_args_def ex_args_def
        ex_over_world_def ex_world_def Process_init_def)
  have s: "stored_rows ''reports/app_report.csv'' (files ex_over_world) = ex_ledger"
    by (simp add: stored_rows_def ex_over_world_def)
  have e: "add_timedelta 1001500000 (arg_duration ex_over_args) = 1003500000"
    by (simp add: add_timedelta_def ex_over_args_def ex_args_def)
  from over_limit_record [OF m su lim run] obtain r where
    "stored_rows ''reports/app_report.csv'' (files w') = ex_ledger @ [r]"
    "sint (row_times_opened_today r) = 2"
    "row_start_time r = 1001500000"
    "row_expected_end_time r = 1003500000"
    "row_actual_end_time r = EndTime 1002000000"
    by (auto simp: f s c t tc e time_of_def)
  with m k su lim run show ?thesis by blast
qed

section \<open>Terminating a process that is gone\<close>

text \<open>
  C2. The claim: when the process has vanished by the time \<^verbatim>\<open>terminate\<close> is called, the
  call fails with ProcessNotFound, which is logged and not escalated, and the run ends
  normally. In the code \<^verbatim>\<open>get_pid\<close> answers \<open>- 1\<close> for a process that is gone and
  \<^verbatim>\<open>terminate\<close> hands that to \<^verbatim>\<open>os.kill\<close> unchecked. In the run below the process exits
  during monitoring: the last thing the run does is \<^verbatim>\<open>os.kill(-1, SIGKILL)\<close>, with nothing
  logged; and where the system refuses that call, the error leaves \<^verbatim>\<open>main\<close> uncaught.
\<close>

theorem terminate_after_exit:
  "final_trace (main ex_args ex_exit_world) =
     [ToCsv ''reports/app_report.csv'' [], PrintStarting (Process_init ''app''),
      PrintCurrentState On, PrintAlreadyOn,
      ToCsv ''reports/app_report.csv''
        [\<lparr>row_date = 0, row_start_time = 1001500000, row_expected_end_time = 1003500000,
          row_actual_end_time = Unknown, row_duration = Some 2000000000,
          row_times_opened_today = 1\<rparr>],
      PrintStartTime (Some 1001500000),
      PrintWillTerminate (1 / 30) (Some 1003500000), PrintMonitoring 50,
      PrintDurationPassed,
      ToCsv ''reports/app_report.csv''
        [\<lparr>row_date = 0, row_start_time = 1001500000, row_expected_end_time = 1003500000,
          row_actual_end_time = EndTime 1004520000, row_duration = Some 2000000000,
          row_times_opened_today = 1\<rparr>],
      OsKill (- 1)]
   \<and> main ex_args ex_strict_world = Some (Inl OSError)"
  by (simp add: eval_defs ex_exit_world_def ex_strict_world_def final_trace_def)

section \<open>The ledger\<close>

text \<open>
  C8. After \<^verbatim>\<open>report_start\<close> the stored table is the table of the report with one more
  row, whose \<^verbatim>\<open>actual_end_time\<close> is the sentinel; after \<^verbatim>\<open>report_termination\<close> reading
  the store again gives the same rows, the last one with \<^verbatim>\<open>actual_end_time\<close> set to
  the time of day of the clock reading and every other field as it was.
\<close>

theorem ledger_round_trip:
  assumes rs: "report_start rep p w = Inr (rep1, w1)"
    and rt: "report_termination rep1 v = (rep2, w2)"
  shows "\<exists>r. read_csv (report_file_name rep) w1 = Inr (report_df rep @ [r])
    \<and> row_actual_end_time r = Unknown
    \<and> read_csv (report_file_name rep) w2 =
        Inr (report_df rep @ [r\<lparr>row_actual_end_time := EndTime (time_of (fst (datetime_now v)))\<rparr>])"
proof -
  from rs obtain st en where p: "start_time p = Some st" "end_time p = Some en"
    by (auto simp: report_start_def Let_def split: option.splits)
  let ?r = "\<lparr>row_date = date rep, row_start_time = time_of st,
              row_expected_end_time = time_of en, row_actual_end_time = Unknown,
              row_duration = duration p,
              row_times_opened_today = get_times_opened_today rep\<rparr>"
  let ?f = "report_file_name rep"
  from rs p have rep1: "rep1 = rep\<lparr>report_df := report_df rep @ [?r]\<rparr>"
    and w1: "w1 = to_csv ?f (report_df rep @ [?r]) w"
    by (simp_all add: report_start_eq Let_def)
  from rt have "w2 = snd (report_termination rep1 v)" by simp
  also have "\<dots> = to_csv ?f
       (report_df rep @ [?r\<lparr>row_actual_end_time := EndTime (time_of \<lfloor>clock (elapse v) * 1000000\<rfloor>)\<rparr>])
       (elapse v)"
    using report_termination_appended [of rep1 "report_df rep" ?r v] by (simp add: rep1)
  finally have w2: "w2 = to_csv ?f
       (report_df rep @ [?r\<lparr>row_actual_end_time := EndTime (time_of \<lfloor>clock (elapse v) * 1000000\<rfloor>)\<rparr>])
       (elapse v)" .
  show ?thesis
  proof (intro exI [of _ ?r] conjI)
    show "read_csv ?f w1 = Inr (report_df rep @ [?r])" by (simp add: w1 read_csv_def)
    show "row_actual_end_time ?r = Unknown" by simp
    show "read_csv ?f w2 =
        Inr (report_df rep @ [?r\<lparr>row_actual_end_time := EndTime (time_of (fst (datetime_now v)))\<rparr>])"
      by (simp add: w2 read_csv_def datetime_now_eq)
  qed
qed

theorem ledger_round_trip_witness:
  "\<exists>p w0 rep1 w1 rep2 w2 r.
      prepare_to_monitor (Process_init ''app'') 2000000000 ex_over_world = (p, w0)
    \<and> report_start (ex_report\<lparr>report_df := ex_ledger\<rparr>) p w0 = Inr (rep1, w1)
    \<and> report_termination rep1 w1 = (rep2, w2)
    \<and> read_csv ''reports/app_report.csv'' w1 = Inr (ex_ledger @ [r])
    \<and> row_actual_end_time r = Unknown
    \<and> read_csv ''reports/app_report.csv'' w2 =
         Inr (ex_ledger @ [r\<lparr>row_actual_end_time := EndTime 1001000000\<rparr>])"
proof -
  let ?rep = "ex_report\<lparr>report_df := ex_ledger\<rparr>"
  obtain p w0 where pr:
    "prepare_to_monitor (Process_init ''app'') 2000000000 ex_over_world = (p, w0)"
    by fastforce
  then have "start_time p \<noteq> None" "end_time p \<noteq> None"
    and w0: "w0 = elapse ex_over_world"
    by (auto simp: prepare_to_monitor_eq)
  then obtain rep1 w1 where rs: "report_start ?rep p w0 = Inr (rep1, w1)"
    by (auto simp: report_start_eq Let_def)
  obtain rep2 w2 where rt: "report_termination rep1 w1 = (rep2, w2)" by fastforce
  from rs have w1: "clock w1 = clock w0" "delays w1 = delays w0" "tick w1 = tick w0"
    by (auto simp: report_start_def Let_def split: option.splits)
  have t: "time_of (fst (datetime_now w1)) = 1001000000"
    by (simp add: datetime_now_eq w1 w0 ex_over_world_def ex_world_def time_of_def)
  from ledger_round_trip [OF rs rt] pr rs rt show ?thesis
    by (auto simp: t ex_report_def)
qed

section \<open>The day of a session and the launches of a day\<close>

text \<open>
  C9. The day written to a session's \<^verbatim>\<open>date\<close> column, and the day whose launches are
  counted, is the day read from the clock when the Report is made, at the start of the
  run: in every run that returns, the appended record has the date of the start-up and
  continues that day's count, while its \<^verbatim>\<open>start_time\<close> is the time of day at which the
  window starts, after the wait; when the wait has crossed midnight the date of the
  record is not the day of its start time.
\<close>

theorem startup_day_in_record:
  assumes su: "main_startup args w = Some (Inr (p0, rep0, w5))"
    and run: "main args w = Some (Inr w')"
  shows "\<exists>r. stored_rows (report_path args w) (files w') =
             stored_rows (report_path args w) (files w) @ [r]
    \<and> row_date r = startup_day w
    \<and> row_times_opened_today r =
        (if day_counts (startup_day w) (stored_rows (report_path args w) (files w)) = [] then 1
         else last (day_counts (startup_day w) (stored_rows (report_path args w) (files w))) + 1)
    \<and> row_start_time r = time_of (fst (datetime_now w5))
    \<and> (startup_day w < date_of (fst (datetime_now w5)) \<longrightarrow>
         row_date r \<noteq> date_of (fst (datetime_now w5)))"
proof -
  let ?f = "report_path args w"
  from main_startup_result [OF su] have
    rep: "date rep0 = startup_day w" "report_file_name rep0 = ?f"
      "report_df rep0 = stored_rows ?f (files w)"
    by auto
  from run su have "main_session args p0 rep0 w5 = Some (Inr w')" by (simp add: main_def)
  from main_session_result [OF this] obtain r where
    f: "files w' = (files w5)(report_file_name rep0 \<mapsto> report_df rep0 @ [r])"
    and r: "row_date r = date rep0" "row_times_opened_today r = get_times_opened_today rep0"
      "row_start_time r = time_of (fst (datetime_now w5))" by blast
  show ?thesis
  proof (intro exI [of _ r] conjI impI)
    show "stored_rows ?f (files w') = stored_rows ?f (files w) @ [r]"
      using f rep by simp
    show "row_date r = startup_day w" using r(1) rep(1) by simp
    show "row_times_opened_today r =
        (if day_counts (startup_day w) (stored_rows ?f (files w)) = [] then 1
         else last (day_counts (startup_day w) (stored_rows ?f (files w))) + 1)"
      using r(2) rep get_times_opened_today_counts [of rep0] by simp
    show "row_start_time r = time_of (fst (datetime_now w5))" by (rule r(3))
    show "row_date r \<noteq> date_of (fst (datetime_now w5))"
      if "startup_day w < date_of (fst (datetime_now w5))"
      using that r(1) rep(1) by simp
  qed
qed

theorem startup_day_in_record_witness:
  "startup_day ex_midnight = 0
   \<and> (\<exists>p0 rep0 w5 w' r.
        main_startup ex_args ex_midnight = Some (Inr (p0, rep0, w5))
      \<and> main ex_args ex_midnight = Some (Inr w')
      \<and> date_of (fst (datetime_now w5)) = 1
      \<and> stored_rows ''reports/app_report.csv'' (files w') = [r]
      \<and> row_date r = 0
      \<and> row_times_opened_today r = 1
      \<and> row_start_time r = 600000)"
proof -
  from ex_midnight_startup obtain rep w5 where
    su: "main_startup ex_args ex_midnight = Some (Inr (Process_init ''app'', rep, w5))"
    and t: "fst (datetime_now w5) = 86400600000" by blast
  from ex_midnight_run obtain w' where run: "main ex_args ex_midnight = Some (Inr w')" ..
  have d: "startup_day ex_midnight = 0"
    by (simp add: startup_day_eq ex_midnight_def ex_world_def date_of_def)
  have f: "report_path ex_args ex_midnight = ''reports/app_report.csv''"
    by (simp add: report_path_def get_report_file_name_def os_sep_def ex_args_def
        ex_midnight_def ex_world_def Process_init_def)
  have s: "stored_rows ''reports/app_report.csv'' (files ex_midnight) = []"
    by (simp add: stored_rows_def ex_midnight_def ex_world_def)
  from startup_day_in_record [OF su run] su run show ?thesis
    by (auto simp: d f s t day_counts_def date_of_def time_of_def)
qed

text \<open>
  C1, as the claim states it: when the table has rows of the day, the count returned is
  the \<^verbatim>\<open>times_opened_today\<close> of the last of them plus 1. The counts are 64-bit integers
  and the addition wraps around: over a table whose record of the day has the count
  9223372036854775807 the count returned is \<open>- 9223372036854775808\<close>, and a run on such a
  store records it.
\<close>

theorem launch_count_counterexample:
  "row_times_opened_today (last (filter (\<lambda>r. row_date r = date ex_full_report)
       (report_df ex_full_report))) = 9223372036854775807
   \<and> sint (row_times_opened_today (last (filter (\<lambda>r. row_date r = date ex_full_report)
       (report_df ex_full_report)))) + 1 = 9223372036854775808
   \<and> sint (get_times_opened_today ex_full_report) = - 9223372036854775808
   \<and> map (\<lambda>r. sint (row_times_opened_today r))
       (final_rows ''reports/app_report.csv'' (main ex_args (ex_world\<lparr>files := ex_full_store\<rparr>))) =
       [9223372036854775807, - 9223372036854775808]"
proof (intro conjI)
  show "map (\<lambda>r. sint (row_times_opened_today r))
       (final_rows ''reports/app_report.csv'' (main ex_args (ex_world\<lparr>files := ex_full_store\<rparr>))) =
       [9223372036854775807, - 9223372036854775808]" by (rule ex_full_run)
qed (simp_all add: ex_full_report_def ex_init_report_def ex_row_def get_times_opened_today_def
    get_last_index_def)

text \<open>
  C1, amended. \<^verbatim>\<open>_get_times_opened_today\<close> returns 1 when no row of the table has the date
  of the report, and otherwise the \<^verbatim>\<open>times_opened_today\<close> of the last row of that date
  plus 1 in 64-bit arithmetic, which is that count plus 1 whenever the count is below
  9223372036854775807. So for fewer than \<open>2\<^sup>6\<^sup>3\<close> runs of \<^verbatim>\<open>main\<close> that all start on the day
  \<open>d\<close> and end after their wait, one after the other on the same store, which held
  no row of \<open>d\<close> before (whatever it held of other days), the counts recorded for \<open>d\<close>
  are \<open>1, 2, \<dots>, N\<close>: the Nth launch of the day counts N, and the first launch of a new day
  counts 1. Every run that ends is one of the sequence, whether it returns or raises,
  and a run that returns leaves the files it returns with.
\<close>

theorem launch_count:
  "get_times_opened_today self =
     (if \<forall>r \<in> set (report_df self). row_date r \<noteq> date self then 1
      else row_times_opened_today
             (last (filter (\<lambda>r. row_date r = date self) (report_df self))) + 1)
   \<and> ((\<exists>r \<in> set (report_df self). row_date r = date self) \<and>
       sint (row_times_opened_today
               (last (filter (\<lambda>r. row_date r = date self) (report_df self)))) <
         9223372036854775807 \<longrightarrow>
       sint (get_times_opened_today self) =
         sint (row_times_opened_today
                 (last (filter (\<lambda>r. row_date r = date self) (report_df self)))) + 1)
   \<and> (runs args ws fs = Some fs' \<and>
       (\<forall>w \<in> set ws. startup_day w = d \<and> report_path args w = f) \<and>
       day_counts d (stored_rows f fs) = [] \<and>
       int (length ws) < 9223372036854775808 \<longrightarrow>
       map sint (day_counts d (stored_rows f fs')) = map int [1..<Suc (length ws)])
   \<and> (main args w = Some r \<longrightarrow>
       (\<exists>fs1. store_after_run args w = Some fs1 \<and> (\<forall>w'. r = Inr w' \<longrightarrow> fs1 = files w')))"
proof (intro conjI impI)
  let ?last = "row_times_opened_today
             (last (filter (\<lambda>r. row_date r = date self) (report_df self)))"
  show eq: "get_times_opened_today self =
     (if \<forall>r \<in> set (report_df self). row_date r \<noteq> date self then 1 else ?last + 1)"
    by (rule get_times_opened_today_eq)
  show "sint (get_times_opened_today self) = sint ?last + 1"
    if "(\<exists>r \<in> set (report_df self). row_date r = date self) \<and> sint ?last < 9223372036854775807"
    using that sint_succ [of ?last] by (auto simp: eq)
  show "map sint (day_counts d (stored_rows f fs')) = map int [1..<Suc (length ws)]"
    if "runs args ws fs = Some fs' \<and>
       (\<forall>w \<in> set ws. startup_day w = d \<and> report_path args w = f) \<and>
       day_counts d (stored_rows f fs) = [] \<and>
       int (length ws) < 9223372036854775808"
    using that runs_counts [of args ws fs fs' d f 0] by simp
  show "\<exists>fs1. store_after_run args w = Some fs1 \<and> (\<forall>w'. r = Inr w' \<longrightarrow> fs1 = files w')"
    if "main args w = Some r"
    using that by (rule store_after_run_main)
qed

theorem launch_count_witness:
  "startup_day ex_world = 0 \<and> startup_day ex_strict_world = 0
   \<and> report_path ex_args ex_world = ''reports/app_report.csv''
   \<and> report_path ex_args ex_strict_world = ''reports/app_report.csv''
   \<and> day_counts 0 (stored_rows ''reports/app_report.csv'' ex_yesterday) = []
   \<and> (\<exists>fs'. runs ex_args [ex_world, ex_strict_world] ex_yesterday = Some fs'
        \<and> map sint (day_counts 0 (stored_rows ''reports/app_report.csv'' fs')) = [1, 2]
        \<and> map row_times_opened_today (stored_rows ''reports/app_report.csv'' fs') = [7, 1, 2])
   \<and> sint (get_times_opened_today ex_init_report) = 2
   \<and> get_times_opened_today (ex_init_report\<lparr>date := 1\<rparr>) = 1
   \<and> main ex_args (ex_strict_world\<lparr>files := ex_yesterday(''reports/app_report.csv'' \<mapsto>
       stored_rows ''reports/app_report.csv'' ex_yesterday @ [ex_row 1])\<rparr>) = Some (Inl OSError)
   \<and> (\<exists>fs1. store_after_run ex_args (ex_strict_world\<lparr>files :=
         ex_yesterday(''reports/app_report.csv'' \<mapsto>
           stored_rows ''reports/app_report.csv'' ex_yesterday @ [ex_row 1])\<rparr>) = Some fs1)"
proof -
  let ?f = "''reports/app_report.csv''"
  let ?W = "ex_strict_world\<lparr>files := ex_yesterday(?f \<mapsto> stored_rows ?f ex_yesterday @ [ex_row 1])\<rparr>"
  have d: "startup_day ex_world = 0" "startup_day ex_strict_world = 0"
    by (simp_all add: startup_day_eq date_of_def ex_world_def ex_strict_world_def
        ex_exit_world_def)
  have f: "report_path ex_args ex_world = ?f" "report_path ex_args ex_strict_world = ?f"
    by (simp_all add: report_path_def get_report_file_name_def os_sep_def Process_init_def
        ex_args_def ex_world_def ex_strict_world_def ex_exit_world_def)
  have a: "\<forall>w \<in> set [ex_world, ex_strict_world]. startup_day w = 0 \<and> report_path ex_args w = ?f"
    using d f by simp
  have b: "day_counts 0 (stored_rows ?f ex_yesterday) = []"
    by (simp add: day_counts_def stored_rows_def ex_yesterday_def)
  have c: "int (length [ex_world, ex_strict_world]) < 9223372036854775808" by simp
  from ex_runs obtain fs' where
    r: "runs ex_args [ex_world, ex_strict_world] ex_yesterday = Some fs'"
    and m: "map row_times_opened_today (stored_rows ?f fs') = [7, 1, 2]"
    by (elim exE conjE)
  note L = launch_count [where args = ex_args and ws = "[ex_world, ex_strict_world]"
      and fs = ex_yesterday and fs' = fs' and d = 0 and f = ?f and w = ?W and r = "Inl OSError"]
  from L [where self = ex_init_report] r a b c
  have "map sint (day_counts 0 (stored_rows ?f fs')) =
      map int [1..<Suc (length [ex_world, ex_strict_world])]" by blast
  then have 1: "map sint (day_counts 0 (stored_rows ?f fs')) = [1, 2]" by (simp add: upt_rec)
  from L [where self = ex_init_report]
  have 2: "sint (get_times_opened_today ex_init_report) = 2"
    by (simp add: ex_init_report_def ex_ledger_def)
  from L [where self = "ex_init_report\<lparr>date := 1\<rparr>"]
  have 3: "get_times_opened_today (ex_init_report\<lparr>date := 1\<rparr>) = 1"
    by (simp add: ex_init_report_def ex_ledger_def)
  from L [where self = ex_init_report] ex_second_run_raises
  have 4: "\<exists>fs1. store_after_run ex_args ?W = Some fs1" by blast
  show ?thesis
  proof (intro conjI)
    show "\<exists>fs'. runs ex_args [ex_world, ex_strict_world] ex_yesterday = Some fs'
        \<and> map sint (day_counts 0 (stored_rows ?f fs')) = [1, 2]
        \<and> map row_times_opened_today (stored_rows ?f fs') = [7, 1, 2]"
      by (intro exI [of _ fs'] conjI r m 1)
  qed (rule d f b 2 3 4 ex_second_run_raises)+
qed

end
